theory Spec2Isabelle
  imports Main
begin

section \<open>JavaScript values, keys and attribute bags\<close>

text \<open>
  Node and edge keys are \<open>string | number\<close> in the TypeScript source; the graph store
  coerces every key to a string and \<open>toString()\<close> of a key is that string, so a key is
  modelled by its string form.
\<close>

type_synonym key = string

text \<open>The attribute values the widget inspects: it tests truthiness (\<open>hidden\<close>),
  compares with \<open>=== true\<close> and \<open>=== false\<close> (\<open>important\<close>) and writes booleans and
  numbers. Numbers are integers here; no arithmetic is done on them.\<close>

datatype jsvalue = JUndefined | JNull | JBool bool | JNum int | JStr string

fun truthy :: "jsvalue \<Rightarrow> bool" where
  "truthy JUndefined = False"
| "truthy JNull = False"
| "truthy (JBool b) = b"
| "truthy (JNum n) = (n \<noteq> 0)"
| "truthy (JStr s) = (s \<noteq> [])"

text \<open>\<open>if (key)\<close> on a key: the empty string is falsy.\<close>

definition key_truthy :: "key \<Rightarrow> bool" where
  "key_truthy k = (k \<noteq> [])"

type_synonym attributes = "string \<rightharpoonup> jsvalue"

text \<open>Reading a property that is not there yields \<open>undefined\<close>.\<close>

definition attribute :: "attributes \<Rightarrow> string \<Rightarrow> jsvalue" where
  "attribute a n = (case a n of None \<Rightarrow> JUndefined | Some v \<Rightarrow> v)"

text \<open>\<open>Object.assign(target, source)\<close>: the own properties of the source win.\<close>

definition object_assign :: "attributes \<Rightarrow> attributes \<Rightarrow> attributes" where
  "object_assign tgt src = tgt ++ src"

text \<open>\<open>JSON.parse(JSON.stringify(o))\<close> on an attribute bag: properties whose value is
  \<open>undefined\<close> are left out, every other value of \<open>jsvalue\<close> survives.\<close>

definition json_copy :: "attributes \<Rightarrow> attributes" where
  "json_copy a = (\<lambda>n. case a n of Some JUndefined \<Rightarrow> None | v \<Rightarrow> v)"

record serialized_node =
  key :: key
  attributes :: attributes

record serialized_edge =
  edgeKey :: "key option"
  source :: key
  target :: key
  edgeAttributes :: attributes

text \<open>An element of the array given to \<open>dropNodes\<close>: a key or a whole node.\<close>

datatype node_ref = KeyRef key | NodeRef serialized_node

text \<open>\<open>typeof node === 'number' || typeof node === 'string' ? node.toString()
  : node.key.toString()\<close>\<close>

fun ref_key :: "node_ref \<Rightarrow> key" where
  "ref_key (KeyRef k) = k"
| "ref_key (NodeRef n) = key n"

text \<open>\<open>node.toString()\<close>: a plain object prints as \<open>[object Object]\<close>.\<close>

fun ref_toString :: "node_ref \<Rightarrow> key" where
  "ref_toString (KeyRef k) = k"
| "ref_toString (NodeRef n) = ''[object Object]''"

section \<open>The graph store\<close>

text \<open>
  Modelled from the spec: the graph store (the graphology library) is an external
  collaborator and not part of the sources. The spec (sections 3 and 6) describes it as a
  mutable multigraph, a mapping from node keys to attributes and from edge keys to
  (source, target, attributes), keys unique within their kind, with the operations
  \<open>hasNode/hasEdge\<close>, \<open>mergeNode\<close>, \<open>mergeEdgeWithKey/mergeEdge\<close>, \<open>dropNode\<close>,
  \<open>clearEdges\<close>, \<open>getNode/EdgeAttribute(s)\<close>, \<open>setNode/EdgeAttribute\<close>, \<open>neighbors\<close>,
  \<open>edges(a,b?)\<close>, \<open>forEachEdge/forEachNeighbor\<close> and \<open>export()\<close>. Edges are kept in
  insertion order, since the widget iterates over them. Reading the attributes of a key
  that is absent, which the spec leaves open, yields the empty bag.
\<close>

record edge_data =
  src :: key
  tgt :: key
  eattributes :: attributes

record graph =
  nodeMap :: "key \<rightharpoonup> attributes"
  edgeList :: "(key \<times> edge_data) list"

definition hasNode :: "graph \<Rightarrow> key \<Rightarrow> bool" where
  "hasNode g k = (nodeMap g k \<noteq> None)"

definition getNodeAttributes :: "graph \<Rightarrow> key \<Rightarrow> attributes" where
  "getNodeAttributes g k = (case nodeMap g k of None \<Rightarrow> Map.empty | Some a \<Rightarrow> a)"

definition getNodeAttribute :: "graph \<Rightarrow> key \<Rightarrow> string \<Rightarrow> jsvalue" where
  "getNodeAttribute g k n = attribute (getNodeAttributes g k) n"

text \<open>Upsert: create the node if absent, else shallow-merge the attributes.\<close>

definition mergeNode :: "graph \<Rightarrow> key \<Rightarrow> attributes \<Rightarrow> graph" where
  "mergeNode g k a = g\<lparr>nodeMap := (nodeMap g)(k \<mapsto> object_assign (getNodeAttributes g k) a)\<rparr>"

definition setNodeAttribute :: "graph \<Rightarrow> key \<Rightarrow> string \<Rightarrow> jsvalue \<Rightarrow> graph" where
  "setNodeAttribute g k n v =
     (case nodeMap g k of None \<Rightarrow> g
      | Some a \<Rightarrow> g\<lparr>nodeMap := (nodeMap g)(k \<mapsto> a(n \<mapsto> v))\<rparr>)"

text \<open>Dropping a node removes the edges attached to it.\<close>

definition dropNode :: "graph \<Rightarrow> key \<Rightarrow> graph" where
  "dropNode g k =
     g\<lparr>nodeMap := (nodeMap g)(k := None),
       edgeList := filter (\<lambda>(ek, e). src e \<noteq> k \<and> tgt e \<noteq> k) (edgeList g)\<rparr>"

definition clearEdges :: "graph \<Rightarrow> graph" where
  "clearEdges g = g\<lparr>edgeList := []\<rparr>"

text \<open>\<open>edges(key)\<close>: the keys of the edges attached to a node.\<close>

definition edgesOf :: "graph \<Rightarrow> key \<Rightarrow> key list" where
  "edgesOf g k = map fst (filter (\<lambda>(ek, e). src e = k \<or> tgt e = k) (edgeList g))"

text \<open>\<open>edges(a, b)\<close>: the keys of the edges going from \<open>a\<close> to \<open>b\<close>.\<close>

definition edgesFromTo :: "graph \<Rightarrow> key \<Rightarrow> key \<Rightarrow> key list" where
  "edgesFromTo g a b = map fst (filter (\<lambda>(ek, e). src e = a \<and> tgt e = b) (edgeList g))"

text \<open>\<open>hasEdge(source, target)\<close>\<close>

definition hasEdge :: "graph \<Rightarrow> key \<Rightarrow> key \<Rightarrow> bool" where
  "hasEdge g a b = (edgesFromTo g a b \<noteq> [])"

definition getEdge :: "graph \<Rightarrow> key \<Rightarrow> edge_data option" where
  "getEdge g ek = map_of (edgeList g) ek"

definition edgeSource :: "graph \<Rightarrow> key \<Rightarrow> key" where
  "edgeSource g ek = (case getEdge g ek of None \<Rightarrow> [] | Some e \<Rightarrow> src e)"

definition edgeTarget :: "graph \<Rightarrow> key \<Rightarrow> key" where
  "edgeTarget g ek = (case getEdge g ek of None \<Rightarrow> [] | Some e \<Rightarrow> tgt e)"

definition getEdgeAttributes :: "graph \<Rightarrow> key \<Rightarrow> attributes" where
  "getEdgeAttributes g ek = (case getEdge g ek of None \<Rightarrow> Map.empty | Some e \<Rightarrow> eattributes e)"

definition getEdgeAttribute :: "graph \<Rightarrow> key \<Rightarrow> string \<Rightarrow> jsvalue" where
  "getEdgeAttribute g ek n = attribute (getEdgeAttributes g ek) n"

definition updateEdgeAttributes :: "graph \<Rightarrow> key \<Rightarrow> (attributes \<Rightarrow> attributes) \<Rightarrow> graph" where
  "updateEdgeAttributes g ek f =
     g\<lparr>edgeList := map (\<lambda>(k, e). if k = ek then (k, e\<lparr>eattributes := f (eattributes e)\<rparr>)
                                 else (k, e)) (edgeList g)\<rparr>"

definition setEdgeAttribute :: "graph \<Rightarrow> key \<Rightarrow> string \<Rightarrow> jsvalue \<Rightarrow> graph" where
  "setEdgeAttribute g ek n v = updateEdgeAttributes g ek (\<lambda>a. a(n \<mapsto> v))"

text \<open>Upsert by key: merge the attributes into the edge of that key, or add the edge,
  creating its end points when they are absent.\<close>

definition mergeEdgeWithKey :: "graph \<Rightarrow> key \<Rightarrow> key \<Rightarrow> key \<Rightarrow> attributes \<Rightarrow> graph" where
  "mergeEdgeWithKey g ek s t a =
     (case getEdge g ek of
        Some e \<Rightarrow> updateEdgeAttributes g ek (\<lambda>old. object_assign old a)
      | None \<Rightarrow>
          (let g1 = mergeNode g s Map.empty;
               g2 = mergeNode g1 t Map.empty
           in g2\<lparr>edgeList := edgeList g2 @ [(ek, \<lparr>src = s, tgt = t, eattributes = a\<rparr>)]\<rparr>))"

text \<open>The key the store gives to an edge merged without one. The spec only asks for
  keys to be opaque and unique within their kind: the generated key is a non-empty
  string longer than every key in use.\<close>

definition generatedKey :: "graph \<Rightarrow> key" where
  "generatedKey g = replicate (Suc (foldr max (map (length \<circ> fst) (edgeList g)) 0)) (CHR ''_'')"

text \<open>Upsert by the source and target pair when no key is given.\<close>

definition mergeEdge :: "graph \<Rightarrow> key \<Rightarrow> key \<Rightarrow> attributes \<Rightarrow> graph" where
  "mergeEdge g s t a =
     (case edgesFromTo g s t of
        ek # _ \<Rightarrow> updateEdgeAttributes g ek (\<lambda>old. object_assign old a)
      | [] \<Rightarrow> mergeEdgeWithKey g (generatedKey g) s t a)"

text \<open>\<open>neighbors(key)\<close>: the nodes at the other end of the attached edges, each once.\<close>

definition neighbors :: "graph \<Rightarrow> key \<Rightarrow> key list" where
  "neighbors g k =
     remdups (concat (map (\<lambda>(ek, e). (if src e = k then [tgt e] else []) @
                                      (if tgt e = k then [src e] else [])) (edgeList g)))"

section \<open>Configuration, renderer and history\<close>

text \<open>
  Modelled from the spec: \<open>AppState\<close>, \<open>AppMode\<close>, \<open>NodeType\<close>, \<open>ActionType\<close> and the
  configuration live in modules that are not part of the sources. The members are the ones
  the sources name; every member of \<open>AppMode\<close> and \<open>NodeType\<close> is a truthy value, so
  \<open>!data.appMode\<close> and \<open>!data.nodeType\<close> test for an absent field only.
\<close>

datatype app_state = INACTIVE | ACTIVE

datatype app_mode = STATIC | DYNAMIC

datatype node_type = RING | CIRCLE | RECTANGLE | TRIANGLE

datatype action_type =
    UPDATE_APP_MODE | UPDATE_OR_ADD_NODE | DROP_NODE | UPDATE_NODE_TYPE | REPLACE_EDGES
  | UPDATE_OR_ADD_EDGE | TOGGLE_EDGE_RENDERING | TOGGLE_IMPORTANT_EDGE_RENDERING | SET_LAYOUT

text \<open>The renderer settings the widget reads and writes.\<close>

record settings =
  hideEdges :: bool
  renderJustImportantEdges :: bool
  renderNodeBackdrop :: bool
  settingsDefaultNodeType :: node_type
  clusterColors :: "int \<rightharpoonup> string"

record configuration =
  appMode :: app_mode
  enableHistory :: bool
  defaultNodeType :: node_type
  highlightSubGraphOnHover :: bool
  includeImportantNeighbors :: bool
  importantNeighborsBidirectional :: bool
  nodeInfoBox :: bool
  sigmaSettings :: settings

text \<open>
  Modelled from the spec: the renderer (sigma.js) is an external collaborator. Of the
  renderer only its mutable settings object matters here; it is built from the
  \<open>sigmaSettings\<close> of the configuration, and \<open>toggleEdgeRendering\<close> and
  \<open>renderJustImportantEdges\<close> store their argument in it. Drawing, \<open>process\<close>,
  \<open>refresh\<close>, \<open>clear\<close> and \<open>kill\<close> leave the state of the widget alone, and so do the
  events the widget emits.
\<close>

record renderer =
  rsettings :: settings

type_synonym layout_mapping = "key \<rightharpoonup> (jsvalue \<times> jsvalue)"

text \<open>A set of edges handed to \<open>mergeEdges\<close> and \<open>replaceEdges\<close> is a JavaScript
  \<open>Set\<close>. \<open>JSON.stringify\<close> of a \<open>Set\<close> is \<open>{}\<close>, so the JSON copy of a set of edges is
  a plain object without \<open>size\<close> and without \<open>forEach\<close>.\<close>

datatype edge_collection = EdgeSet "serialized_edge list" | PlainObject

fun json_copy_edges :: "edge_collection \<Rightarrow> edge_collection" where
  "json_copy_edges c = PlainObject"

definition json_copy_nodes :: "serialized_node list \<Rightarrow> serialized_node list" where
  "json_copy_nodes ns = map (\<lambda>n. n\<lparr>attributes := json_copy (attributes n)\<rparr>) ns"

text \<open>The payload bag of a history action: every field is optional.\<close>

record action_data =
  d_appMode :: "app_mode option"
  d_nodes :: "serialized_node list option"
  d_edges :: "edge_collection option"
  d_nodeType :: "node_type option"
  d_toggleEdgeRendering :: "bool option"
  d_layoutMapping :: "layout_mapping option"

definition noData :: action_data where
  "noData = \<lparr>d_appMode = None, d_nodes = None, d_edges = None, d_nodeType = None,
             d_toggleEdgeRendering = None, d_layoutMapping = None\<rparr>"

record action =
  oldData :: action_data
  actionType :: action_type
  newData :: action_data
  reverted :: bool

text \<open>
  Modelled from the spec: the \<open>HistoryManager\<close> class is not part of the sources. The
  spec (sections 2, 3 and 4.3) describes a log of actions \<open>{oldData, actionType, newData,
  reverted}\<close> in which the reverted actions are a contiguous block at the end; a new action
  goes to the end and ends the availability of redo for what was reverted; undo takes the
  most recent action that is not reverted and marks it reverted; redo takes the action
  reverted most recently and marks it not reverted.
\<close>

type_synonym history_manager = "action list"

definition addAction :: "action_data \<Rightarrow> action_type \<Rightarrow> action_data \<Rightarrow> history_manager \<Rightarrow> history_manager" where
  "addAction old ty new h =
     filter (\<lambda>a. \<not> reverted a) h @ [\<lparr>oldData = old, actionType = ty, newData = new, reverted = False\<rparr>]"

definition getLatestAction :: "history_manager \<Rightarrow> action option" where
  "getLatestAction h = find (\<lambda>a. \<not> reverted a) (rev h)"

definition getLatestRevertedAction :: "history_manager \<Rightarrow> action option" where
  "getLatestRevertedAction h = find reverted h"

fun markFirst :: "(action \<Rightarrow> bool) \<Rightarrow> bool \<Rightarrow> action list \<Rightarrow> action list" where
  "markFirst P b [] = []"
| "markFirst P b (a # as) = (if P a then a\<lparr>reverted := b\<rparr> # as else a # markFirst P b as)"

definition markLatestActionAsReverted :: "history_manager \<Rightarrow> history_manager" where
  "markLatestActionAsReverted h = rev (markFirst (\<lambda>a. \<not> reverted a) True (rev h))"

definition markLatestRevertedActionAsNotReverted :: "history_manager \<Rightarrow> history_manager" where
  "markLatestRevertedActionAsNotReverted h = markFirst reverted False h"

section \<open>The widget\<close>

datatype error = AlreadyRendering | RenderingInactive | HistoryDisabled | TypeError

record webgraph =
  graphData :: graph
  configuration :: configuration
  appState :: app_state
  renderer :: "renderer option"
  highlightedNodes :: "key set"
  highlightedEdges :: "key set"
  hoveredNode :: "key option"
  isNodeInfoBoxContainerVisible :: bool
  isHistoryEnabled :: bool
  history :: "history_manager option"
  isEdgeRenderingDisabled :: bool
  isJustImportantEdgesEnabled :: bool
  isNodeBackdropRenderingEnabled :: bool

text \<open>An operation that may throw returns the error and the state it leaves behind.\<close>

type_synonym 'a result = "(error \<times> webgraph) + ('a \<times> webgraph)"

definition isRenderingActive :: "webgraph \<Rightarrow> bool" where
  "isRenderingActive s = (appState s = ACTIVE)"

text \<open>\<open>this.history?.addAction(...)\<close>\<close>

definition history_addAction :: "action_data \<Rightarrow> action_type \<Rightarrow> action_data \<Rightarrow> webgraph \<Rightarrow> webgraph" where
  "history_addAction old ty new s = s\<lparr>history := map_option (addAction old ty new) (history s)\<rparr>"

text \<open>The setter of \<open>appMode\<close>.\<close>

definition set_appMode :: "webgraph \<Rightarrow> app_mode \<Rightarrow> webgraph" where
  "set_appMode s m =
     (let oldAppMode = appMode (configuration s);
          s1 = s\<lparr>configuration := (configuration s)\<lparr>appMode := m\<rparr>\<rparr>
      in if isHistoryEnabled s1
         then history_addAction (noData\<lparr>d_appMode := Some oldAppMode\<rparr>) UPDATE_APP_MODE
                (noData\<lparr>d_appMode := Some m\<rparr>) s1
         else s1)"

text \<open>\<open>overwriteRenderSettings\<close>: of what it injects into the settings, the default node
  type is the part that is state.\<close>

definition overwriteRenderSettings :: "webgraph \<Rightarrow> webgraph" where
  "overwriteRenderSettings s =
     s\<lparr>configuration := (configuration s)
         \<lparr>sigmaSettings := (sigmaSettings (configuration s))
            \<lparr>settingsDefaultNodeType := defaultNodeType (configuration s)\<rparr>\<rparr>\<rparr>"

definition render :: "webgraph \<Rightarrow> (error \<times> webgraph) + webgraph" where
  "render s =
     (if isRenderingActive s then Inl (AlreadyRendering, s)
      else
        let s1 = s\<lparr>appState := ACTIVE\<rparr>;
            s2 = overwriteRenderSettings s1;
            r = \<lparr>rsettings = sigmaSettings (configuration s2)\<rparr>;
            s3 = s2\<lparr>renderer := Some r\<rparr>;
            s4 = s3\<lparr>isHistoryEnabled := enableHistory (configuration s3)\<rparr>;
            s5 = (if isHistoryEnabled s4 then s4\<lparr>history := Some []\<rparr> else s4)
        in Inr (s5\<lparr>isEdgeRenderingDisabled := hideEdges (rsettings r),
                   isJustImportantEdgesEnabled := renderJustImportantEdges (rsettings r),
                   isNodeBackdropRenderingEnabled := renderNodeBackdrop (rsettings r)\<rparr>))"

definition destroy :: "webgraph \<Rightarrow> webgraph" where
  "destroy s =
     s\<lparr>renderer := None, appState := INACTIVE, highlightedNodes := {}, highlightedEdges := {},
       hoveredNode := None, history := None\<rparr>"

definition clearHistory :: "webgraph \<Rightarrow> bool \<times> webgraph" where
  "clearHistory s = (True, s\<lparr>history := Some []\<rparr>)"

text \<open>\<open>exportGraph\<close> returns the serialized graph with the state it leaves.\<close>

definition exportGraph :: "webgraph \<Rightarrow> bool \<Rightarrow> graph \<times> webgraph" where
  "exportGraph s excludeEdges =
     (let s1 = (if excludeEdges then s\<lparr>graphData := clearEdges (graphData s)\<rparr> else s)
      in (graphData s1, s1))"

text \<open>\<open>this.renderer?.toggleEdgeRendering(h)\<close> and
  \<open>this.renderer?.renderJustImportantEdges(b)\<close>\<close>

definition renderer_toggleEdgeRendering :: "bool \<Rightarrow> webgraph \<Rightarrow> webgraph" where
  "renderer_toggleEdgeRendering h s =
     s\<lparr>renderer := map_option (\<lambda>r. r\<lparr>rsettings := (rsettings r)\<lparr>hideEdges := h\<rparr>\<rparr>) (renderer s)\<rparr>"

definition renderer_renderJustImportantEdges :: "bool \<Rightarrow> webgraph \<Rightarrow> webgraph" where
  "renderer_renderJustImportantEdges b s =
     s\<lparr>renderer := map_option (\<lambda>r. r\<lparr>rsettings := (rsettings r)\<lparr>renderJustImportantEdges := b\<rparr>\<rparr>)
                     (renderer s)\<rparr>"

text \<open>The parameter \<open>hideEdges\<close> is \<open>hide\<close> here and \<open>undefined\<close> is \<open>None\<close>.\<close>

definition toggleEdgeRendering :: "webgraph \<Rightarrow> bool option \<Rightarrow> bool \<Rightarrow> webgraph" where
  "toggleEdgeRendering s hide addToHistory =
     (let oldValue = isEdgeRenderingDisabled s;
          s1 = (case hide of
                  Some h \<Rightarrow> renderer_toggleEdgeRendering h (s\<lparr>isEdgeRenderingDisabled := h\<rparr>)
                | None \<Rightarrow>
                    renderer_toggleEdgeRendering (\<not> isEdgeRenderingDisabled s)
                      (s\<lparr>isEdgeRenderingDisabled := \<not> isEdgeRenderingDisabled s\<rparr>))
      in if isHistoryEnabled s1 \<and> addToHistory
         then history_addAction (noData\<lparr>d_toggleEdgeRendering := Some oldValue\<rparr>)
                TOGGLE_EDGE_RENDERING (noData\<lparr>d_toggleEdgeRendering := hide\<rparr>) s1
         else s1)"

text \<open>The inner call \<open>this.toggleEdgeRendering(false)\<close> leaves \<open>addToHistory\<close> at its
  default, \<open>true\<close>.\<close>

definition toggleJustImportantEdgeRendering :: "webgraph \<Rightarrow> bool option \<Rightarrow> bool \<Rightarrow> webgraph" where
  "toggleJustImportantEdgeRendering s renderJustImportant addToHistory =
     (let oldValue = isJustImportantEdgesEnabled s;
          s1 = (case renderJustImportant of
                  Some b \<Rightarrow> renderer_renderJustImportantEdges b (s\<lparr>isJustImportantEdgesEnabled := b\<rparr>)
                | None \<Rightarrow>
                    renderer_renderJustImportantEdges (\<not> isJustImportantEdgesEnabled s)
                      (s\<lparr>isJustImportantEdgesEnabled := \<not> isJustImportantEdgesEnabled s\<rparr>));
          s2 = toggleEdgeRendering s1 (Some False) True
      in if isHistoryEnabled s2 \<and> addToHistory
         then history_addAction (noData\<lparr>d_toggleEdgeRendering := Some oldValue\<rparr>)
                TOGGLE_IMPORTANT_EDGE_RENDERING (noData\<lparr>d_toggleEdgeRendering := renderJustImportant\<rparr>) s2
         else s2)"

section \<open>Merging and dropping nodes\<close>

text \<open>The loop of \<open>mergeNodes\<close>; \<open>recording\<close> is \<open>this.isHistoryEnabled && addToHistory\<close>.
  A node that exists already is snapshotted before it is merged.\<close>

fun mergeNodes_each :: "bool \<Rightarrow> serialized_node list \<Rightarrow> graph \<times> serialized_node list
    \<Rightarrow> graph \<times> serialized_node list" where
  "mergeNodes_each recording [] (g, existingNodes) = (g, existingNodes)"
| "mergeNodes_each recording (node # nodes) (g, existingNodes) =
     mergeNodes_each recording nodes
       (mergeNode g (key node) (attributes node),
        if recording \<and> hasNode g (key node)
        then existingNodes @ [\<lparr>key = key node,
                                attributes = object_assign Map.empty (getNodeAttributes g (key node))\<rparr>]
        else existingNodes)"

text \<open>The loop run when \<open>addToHistory\<close> is false: every edge attached to a merged node
  gets \<open>hidden = false\<close>.\<close>

fun unhideEdges :: "serialized_node list \<Rightarrow> graph \<Rightarrow> graph" where
  "unhideEdges [] g = g"
| "unhideEdges (node # nodes) g =
     unhideEdges nodes
       (foldl (\<lambda>g' edge. setEdgeAttribute g' edge ''hidden'' (JBool False)) g (edgesOf g (key node)))"

definition mergeNodes :: "webgraph \<Rightarrow> serialized_node list \<Rightarrow> bool \<Rightarrow> bool \<times> webgraph" where
  "mergeNodes s nodes addToHistory =
     (if length nodes \<le> 0 then (False, s)
      else
        let recording = (isHistoryEnabled s \<and> addToHistory);
            (g, existingNodes) = mergeNodes_each recording nodes (graphData s, []);
            s1 = s\<lparr>graphData := g\<rparr>;
            s2 = (if recording
                  then history_addAction (noData\<lparr>d_nodes := Some existingNodes\<rparr>) UPDATE_OR_ADD_NODE
                         (noData\<lparr>d_nodes := Some nodes\<rparr>) s1
                  else s1);
            s3 = (if \<not> addToHistory then s2\<lparr>graphData := unhideEdges nodes (graphData s2)\<rparr> else s2)
        in (True, s3))"

definition hideNodeInfoBoxContainer :: "webgraph \<Rightarrow> bool \<Rightarrow> webgraph" where
  "hideNodeInfoBoxContainer s rightClickNode =
     (if \<not> isNodeInfoBoxContainerVisible s then s
      else if \<not> rightClickNode \<and> (case hoveredNode s of None \<Rightarrow> False | Some k \<Rightarrow> key_truthy k) then s
      else if \<not> nodeInfoBox (configuration s) then s
      else s\<lparr>isNodeInfoBoxContainerVisible := False\<rparr>)"

text \<open>The loop of \<open>dropNodes\<close>, with the array of nodes and the set of edges it collects
  for the history. The set holds a fresh object for every edge, so it is a list.\<close>

fun dropNodes_each :: "bool \<Rightarrow> node_ref list \<Rightarrow> webgraph \<times> serialized_node list \<times> serialized_edge list
    \<Rightarrow> webgraph \<times> serialized_node list \<times> serialized_edge list" where
  "dropNodes_each recording [] acc = acc"
| "dropNodes_each recording (node # nodes) (s, nodeArrayForHistory, edgeSetForHistory) =
     (let k = ref_key node; g = graphData s in
      if \<not> hasNode g k then dropNodes_each recording nodes (s, nodeArrayForHistory, edgeSetForHistory)
      else
        let s1 = s\<lparr>highlightedNodes := highlightedNodes s - {k}\<rparr>;
            es = edgesOf g k;
            s2 = s1\<lparr>highlightedEdges := highlightedEdges s1 - set es\<rparr>;
            edgeSet' = (if recording
                        then edgeSetForHistory @
                             map (\<lambda>edge. \<lparr>edgeKey = Some edge, source = edgeSource g edge,
                                          target = edgeTarget g edge,
                                          edgeAttributes = getEdgeAttributes g edge\<rparr>) es
                        else edgeSetForHistory);
            s3 = hideNodeInfoBoxContainer s2 False;
            nodeArray' = (if recording
                          then nodeArrayForHistory @
                               [\<lparr>key = ref_toString node, attributes = getNodeAttributes g k\<rparr>]
                          else nodeArrayForHistory);
            s4 = s3\<lparr>graphData := dropNode g k\<rparr>
        in dropNodes_each recording nodes (s4, nodeArray', edgeSet'))"

definition dropNodes :: "webgraph \<Rightarrow> node_ref list \<Rightarrow> bool \<Rightarrow> bool \<times> webgraph" where
  "dropNodes s nodes addToHistory =
     (let recording = (isHistoryEnabled s \<and> addToHistory);
          (s1, nodeArrayForHistory, edgeSetForHistory) = dropNodes_each recording nodes (s, [], []);
          s2 = (if recording
                then history_addAction
                       (noData\<lparr>d_nodes := Some nodeArrayForHistory, d_edges := Some (EdgeSet edgeSetForHistory)\<rparr>)
                       DROP_NODE noData s1
                else s1)
      in (True, s2))"

section \<open>Merging and replacing edges\<close>

text \<open>The loop of \<open>mergeEdges\<close> over a set of edges. A falsy key, absent or the empty
  string, sends the edge to \<open>mergeEdge\<close>, which merges by source and target.\<close>

fun mergeEdges_each :: "bool \<Rightarrow> serialized_edge list \<Rightarrow> graph \<times> serialized_edge list
    \<Rightarrow> graph \<times> serialized_edge list" where
  "mergeEdges_each recording [] (g, existingEdges) = (g, existingEdges)"
| "mergeEdges_each recording (edge # edges) (g, existingEdges) =
     (let k = edgeKey edge;
          keyGiven = (case k of None \<Rightarrow> False | Some ek \<Rightarrow> key_truthy ek);
          existingEdges' =
            (if recording \<and> hasEdge g (source edge) (target edge)
             then existingEdges @
                  [\<lparr>edgeKey = k, source = source edge, target = target edge,
                    edgeAttributes = (case k of
                                        Some ek \<Rightarrow> if key_truthy ek
                                                   then object_assign Map.empty (getEdgeAttributes g ek)
                                                   else Map.empty
                                      | None \<Rightarrow> Map.empty)\<rparr>]
             else existingEdges);
          g' = (case k of
                  Some ek \<Rightarrow> if key_truthy ek
                             then mergeEdgeWithKey g ek (source edge) (target edge) (edgeAttributes edge)
                             else mergeEdge g (source edge) (target edge) (edgeAttributes edge)
                | None \<Rightarrow> mergeEdge g (source edge) (target edge) (edgeAttributes edge))
      in mergeEdges_each recording edges (g', existingEdges'))"

text \<open>On a plain object \<open>edges.size\<close> is \<open>undefined\<close>, \<open>undefined <= 0\<close> is false, and
  \<open>edges.forEach\<close> is not a function: the call throws a \<open>TypeError\<close>.\<close>

definition mergeEdges :: "webgraph \<Rightarrow> edge_collection \<Rightarrow> bool \<Rightarrow> bool result" where
  "mergeEdges s edges addToHistory =
     (case edges of
        PlainObject \<Rightarrow> Inl (TypeError, s)
      | EdgeSet es \<Rightarrow>
          if length es \<le> 0 then Inr (False, s)
          else
            let recording = (isHistoryEnabled s \<and> addToHistory);
                (g, existingEdges) = mergeEdges_each recording es (graphData s, []);
                s1 = s\<lparr>graphData := g\<rparr>
            in Inr (True,
                    if recording
                    then history_addAction (noData\<lparr>d_edges := Some (EdgeSet existingEdges)\<rparr>)
                           UPDATE_OR_ADD_EDGE (noData\<lparr>d_edges := Some edges\<rparr>) s1
                    else s1))"

text \<open>\<open>forEachEdge\<close> in \<open>replaceEdges\<close>: every edge of the graph, serialized.\<close>

definition allEdges :: "graph \<Rightarrow> serialized_edge list" where
  "allEdges g = map (\<lambda>(ek, e). \<lparr>edgeKey = Some ek, source = edgeSource g ek, target = edgeTarget g ek,
                                 edgeAttributes = getEdgeAttributes g ek\<rparr>) (edgeList g)"

definition replaceEdges :: "webgraph \<Rightarrow> edge_collection \<Rightarrow> bool \<Rightarrow> bool result" where
  "replaceEdges s edges addToHistory =
     (let s1 = (if isHistoryEnabled s \<and> addToHistory
                then history_addAction (noData\<lparr>d_edges := Some (EdgeSet (allEdges (graphData s)))\<rparr>)
                       REPLACE_EDGES (noData\<lparr>d_edges := Some edges\<rparr>) s
                else s);
          s2 = s1\<lparr>graphData := clearEdges (graphData s1)\<rparr>
      in case mergeEdges s2 edges False of
           Inl e \<Rightarrow> Inl e
         | Inr (b, s3) \<Rightarrow> Inr (True, s3))"

section \<open>Node type and layout\<close>

definition setAndApplyDefaultNodeType :: "webgraph \<Rightarrow> node_type \<Rightarrow> bool \<Rightarrow> bool \<times> webgraph" where
  "setAndApplyDefaultNodeType s nodeType addToHistory =
     (case renderer s of
        None \<Rightarrow> (False, s)
      | Some r \<Rightarrow>
          let oldNodeType = defaultNodeType (configuration s);
              c = configuration s;
              s1 = s\<lparr>configuration :=
                       c\<lparr>defaultNodeType := nodeType,
                         sigmaSettings := (sigmaSettings c)\<lparr>settingsDefaultNodeType := nodeType\<rparr>\<rparr>,
                     renderer := Some (r\<lparr>rsettings := (rsettings r)\<lparr>settingsDefaultNodeType := nodeType\<rparr>\<rparr>)\<rparr>
          in (True,
              if isHistoryEnabled s1 \<and> addToHistory
              then history_addAction (noData\<lparr>d_nodeType := Some oldNodeType\<rparr>) UPDATE_NODE_TYPE
                     (noData\<lparr>d_nodeType := Some nodeType\<rparr>) s1
              else s1))"

text \<open>
  Modelled from the spec: \<open>animateNodes\<close> of the renderer library animates all node
  positions to the given mapping; the model takes the positions the animation ends in.
\<close>

definition animateGraph :: "webgraph \<Rightarrow> layout_mapping \<Rightarrow> webgraph" where
  "animateGraph s mapping =
     s\<lparr>graphData := (graphData s)
         \<lparr>nodeMap := (\<lambda>k. case nodeMap (graphData s) k of
                              None \<Rightarrow> None
                            | Some a \<Rightarrow> (case mapping k of
                                          None \<Rightarrow> Some a
                                        | Some (x, y) \<Rightarrow> Some (a(''x'' \<mapsto> x, ''y'' \<mapsto> y))))\<rparr>\<rparr>"

text \<open>
  Modelled from the spec: \<open>InternalUtils.exportLayoutMapping\<close> is not part of the sources;
  it is the position mapping, node to \<open>{x, y}\<close>, of the graph.
\<close>

definition exportLayoutMapping :: "graph \<Rightarrow> layout_mapping" where
  "exportLayoutMapping g = (\<lambda>k. map_option (\<lambda>a. (attribute a ''x'', attribute a ''y'')) (nodeMap g k))"

text \<open>A layout function either changes the positions in the graph in place or returns a
  mapping to animate towards; \<open>layoutOptions\<close> is part of the function here.\<close>

type_synonym layout = "graph \<Rightarrow> graph \<times> layout_mapping option"

definition applyLayout :: "webgraph \<Rightarrow> layout \<Rightarrow> webgraph" where
  "applyLayout s layout =
     (let (g, newLayout) = layout (graphData s);
          s1 = s\<lparr>graphData := g\<rparr>
      in case newLayout of None \<Rightarrow> s1 | Some mapping \<Rightarrow> animateGraph s1 mapping)"

definition setAndApplyLayout :: "webgraph \<Rightarrow> layout \<Rightarrow> bool \<Rightarrow> bool \<times> webgraph" where
  "setAndApplyLayout s layout addToHistory =
     (let oldLayoutMapping = (if isHistoryEnabled s \<and> addToHistory
                              then Some (exportLayoutMapping (graphData s)) else None);
          s1 = applyLayout s layout
      in (True,
          if isHistoryEnabled s1 \<and> addToHistory
          then history_addAction (noData\<lparr>d_layoutMapping := oldLayoutMapping\<rparr>) SET_LAYOUT
                 (noData\<lparr>d_layoutMapping := Some (exportLayoutMapping (graphData s1))\<rparr>) s1
          else s1))"

section \<open>Node backdrops\<close>

definition toggleNodeBackdropRendering ::
    "webgraph \<Rightarrow> (int \<rightharpoonup> string) option \<Rightarrow> bool option \<Rightarrow> bool result" where
  "toggleNodeBackdropRendering s colors manuallyEnOrDisable =
     (case renderer s of
        None \<Rightarrow> Inl (RenderingInactive, s)
      | Some r \<Rightarrow>
          if \<not> isRenderingActive s then Inl (RenderingInactive, s)
          else
            let c = configuration s;
                st = (case colors of None \<Rightarrow> rsettings r
                      | Some cs \<Rightarrow> (rsettings r)\<lparr>clusterColors := cs\<rparr>);
                cst = (case colors of None \<Rightarrow> sigmaSettings c
                       | Some cs \<Rightarrow> (sigmaSettings c)\<lparr>clusterColors := cs\<rparr>);
                v = (case manuallyEnOrDisable of
                       Some m \<Rightarrow> m
                     | None \<Rightarrow> \<not> isNodeBackdropRenderingEnabled s)
            in Inr (True,
                    s\<lparr>renderer := Some (r\<lparr>rsettings := st\<lparr>renderNodeBackdrop := v\<rparr>\<rparr>),
                      configuration := c\<lparr>sigmaSettings := cst\<lparr>renderNodeBackdrop := v\<rparr>\<rparr>,
                      isNodeBackdropRenderingEnabled := v\<rparr>))"

section \<open>Undo and redo\<close>

text \<open>The switch of \<open>undo\<close> over the kind of the action. \<open>Inr None\<close> is a
  \<open>return false\<close> from inside the switch, \<open>Inr (Some s')\<close> a \<open>break\<close>, \<open>Inl\<close> an
  exception of a call.\<close>

definition undo_switch :: "webgraph \<Rightarrow> action \<Rightarrow> (error \<times> webgraph) + webgraph option" where
  "undo_switch s latestAction =
     (case actionType latestAction of
        UPDATE_APP_MODE \<Rightarrow>
          (case d_appMode (oldData latestAction) of
             None \<Rightarrow> Inr None
           | Some m \<Rightarrow> Inr (Some (s\<lparr>configuration := (configuration s)\<lparr>appMode := m\<rparr>\<rparr>)))
      | UPDATE_OR_ADD_NODE \<Rightarrow>
          (case (d_nodes (oldData latestAction), d_nodes (newData latestAction)) of
             (Some oldNodes, Some newNodes) \<Rightarrow>
               (let s1 = snd (dropNodes s (map NodeRef newNodes) False);
                    s2 = snd (mergeNodes s1 (json_copy_nodes oldNodes) False)
                in Inr (Some s2))
           | _ \<Rightarrow> Inr None)
      | DROP_NODE \<Rightarrow>
          (case (d_nodes (oldData latestAction), d_edges (oldData latestAction)) of
             (Some oldNodes, Some oldEdges) \<Rightarrow>
               (let s1 = snd (mergeNodes s oldNodes False)
                in case mergeEdges s1 oldEdges False of
                     Inl e \<Rightarrow> Inl e
                   | Inr (b, s2) \<Rightarrow> Inr (Some s2))
           | _ \<Rightarrow> Inr None)
      | UPDATE_NODE_TYPE \<Rightarrow>
          (case d_nodeType (oldData latestAction) of
             None \<Rightarrow> Inr None
           | Some t \<Rightarrow> Inr (Some (snd (setAndApplyDefaultNodeType s t False))))
      | REPLACE_EDGES \<Rightarrow>
          (case d_edges (oldData latestAction) of
             None \<Rightarrow> Inr None
           | Some oldEdges \<Rightarrow>
               (case replaceEdges s oldEdges False of
                  Inl e \<Rightarrow> Inl e
                | Inr (b, s1) \<Rightarrow> Inr (Some s1)))
      | UPDATE_OR_ADD_EDGE \<Rightarrow>
          (case d_edges (oldData latestAction) of
             None \<Rightarrow> Inr None
           | Some oldEdges \<Rightarrow>
               (case replaceEdges s (json_copy_edges oldEdges) False of
                  Inl e \<Rightarrow> Inl e
                | Inr (b, s1) \<Rightarrow> Inr (Some s1)))
      | TOGGLE_EDGE_RENDERING \<Rightarrow>
          (case d_toggleEdgeRendering (oldData latestAction) of
             None \<Rightarrow> Inr None
           | Some v \<Rightarrow> Inr (Some (toggleEdgeRendering s (Some v) False)))
      | TOGGLE_IMPORTANT_EDGE_RENDERING \<Rightarrow>
          (case d_toggleEdgeRendering (oldData latestAction) of
             None \<Rightarrow> Inr None
           | Some v \<Rightarrow> Inr (Some (toggleJustImportantEdgeRendering s (Some v) False)))
      | SET_LAYOUT \<Rightarrow>
          (case d_layoutMapping (oldData latestAction) of
             None \<Rightarrow> Inr None
           | Some m \<Rightarrow> Inr (Some (animateGraph s m))))"

definition undo :: "webgraph \<Rightarrow> bool result" where
  "undo s =
     (if renderer s = None \<or> \<not> isRenderingActive s then Inl (RenderingInactive, s)
      else if \<not> isHistoryEnabled s then Inl (HistoryDisabled, s)
      else
        case (case history s of None \<Rightarrow> None | Some h \<Rightarrow> getLatestAction h) of
          None \<Rightarrow> Inr (False, s)
        | Some latestAction \<Rightarrow>
            (case undo_switch s latestAction of
               Inl e \<Rightarrow> Inl e
             | Inr None \<Rightarrow> Inr (False, s)
             | Inr (Some s1) \<Rightarrow>
                 Inr (True, s1\<lparr>history := map_option markLatestActionAsReverted (history s1)\<rparr>)))"

definition redo_switch :: "webgraph \<Rightarrow> action \<Rightarrow> (error \<times> webgraph) + webgraph option" where
  "redo_switch s latestRevertedAction =
     (case actionType latestRevertedAction of
        UPDATE_APP_MODE \<Rightarrow>
          (case d_appMode (newData latestRevertedAction) of
             None \<Rightarrow> Inr None
           | Some m \<Rightarrow> Inr (Some (s\<lparr>configuration := (configuration s)\<lparr>appMode := m\<rparr>\<rparr>)))
      | UPDATE_OR_ADD_NODE \<Rightarrow>
          (case d_nodes (newData latestRevertedAction) of
             None \<Rightarrow> Inr None
           | Some newNodes \<Rightarrow> Inr (Some (snd (mergeNodes s newNodes False))))
      | DROP_NODE \<Rightarrow>
          (case d_nodes (oldData latestRevertedAction) of
             None \<Rightarrow> Inr None
           | Some oldNodes \<Rightarrow> Inr (Some (snd (dropNodes s (map NodeRef oldNodes) False))))
      | UPDATE_NODE_TYPE \<Rightarrow>
          (case d_nodeType (newData latestRevertedAction) of
             None \<Rightarrow> Inr None
           | Some t \<Rightarrow> Inr (Some (snd (setAndApplyDefaultNodeType s t False))))
      | REPLACE_EDGES \<Rightarrow>
          (case d_edges (newData latestRevertedAction) of
             None \<Rightarrow> Inr None
           | Some newEdges \<Rightarrow>
               (case replaceEdges s newEdges False of
                  Inl e \<Rightarrow> Inl e
                | Inr (b, s1) \<Rightarrow> Inr (Some s1)))
      | UPDATE_OR_ADD_EDGE \<Rightarrow>
          (case d_edges (newData latestRevertedAction) of
             None \<Rightarrow> Inr None
           | Some newEdges \<Rightarrow>
               (case mergeEdges s newEdges False of
                  Inl e \<Rightarrow> Inl e
                | Inr (b, s1) \<Rightarrow> Inr (Some s1)))
      | TOGGLE_EDGE_RENDERING \<Rightarrow>
          (case d_toggleEdgeRendering (newData latestRevertedAction) of
             None \<Rightarrow> Inr None
           | Some v \<Rightarrow> Inr (Some (toggleEdgeRendering s (Some v) False)))
      | TOGGLE_IMPORTANT_EDGE_RENDERING \<Rightarrow>
          (case d_toggleEdgeRendering (newData latestRevertedAction) of
             None \<Rightarrow> Inr None
           | Some v \<Rightarrow> Inr (Some (toggleJustImportantEdgeRendering s (Some v) False)))
      | SET_LAYOUT \<Rightarrow>
          (case d_layoutMapping (newData latestRevertedAction) of
             None \<Rightarrow> Inr None
           | Some m \<Rightarrow> Inr (Some (animateGraph s m))))"

definition redo :: "webgraph \<Rightarrow> bool result" where
  "redo s =
     (if renderer s = None \<or> \<not> isRenderingActive s then Inl (RenderingInactive, s)
      else if \<not> isHistoryEnabled s then Inl (HistoryDisabled, s)
      else
        case (case history s of None \<Rightarrow> None | Some h \<Rightarrow> getLatestRevertedAction h) of
          None \<Rightarrow> Inr (False, s)
        | Some latestRevertedAction \<Rightarrow>
            (case redo_switch s latestRevertedAction of
               Inl e \<Rightarrow> Inl e
             | Inr None \<Rightarrow> Inr (False, s)
             | Inr (Some s1) \<Rightarrow>
                 Inr (True, s1\<lparr>history := map_option markLatestRevertedActionAsNotReverted (history s1)\<rparr>)))"

section \<open>Highlighting the sub-graph of a hovered node\<close>

text \<open>The \<open>forEach\<close> of the important-only branch: an edge is added when its
  \<open>important\<close> attribute \<open>=== true\<close>; the flag is \<open>isAtLeastOneEdgeVisible\<close>.\<close>

fun addImportantEdges :: "graph \<Rightarrow> key list \<Rightarrow> key set \<times> bool \<Rightarrow> key set \<times> bool" where
  "addImportantEdges g [] acc = acc"
| "addImportantEdges g (edge # es) (hl, visible) =
     addImportantEdges g es
       (if getEdgeAttribute g edge ''important'' = JBool True then (insert edge hl, True)
        else (hl, visible))"

text \<open>The \<open>forEach\<close> over the edges to a neighbor's important neighbor: an edge is
  skipped when the renderer renders just important edges and its \<open>important\<close> attribute
  \<open>=== false\<close>.\<close>

fun addVisibleEdges :: "bool \<Rightarrow> graph \<Rightarrow> key list \<Rightarrow> key set \<times> bool \<Rightarrow> key set \<times> bool" where
  "addVisibleEdges justImportant g [] acc = acc"
| "addVisibleEdges justImportant g (edge # es) (hl, visible) =
     addVisibleEdges justImportant g es
       (if justImportant \<and> getEdgeAttribute g edge ''important'' = JBool False then (hl, visible)
        else (insert edge hl, True))"

text \<open>The inner loop, over \<open>importantNeighborsOfNeighbor\<close>.\<close>

fun highlightImportantNeighbors :: "webgraph \<Rightarrow> key \<Rightarrow> key list \<Rightarrow> key set \<times> key set
    \<Rightarrow> key set \<times> key set" where
  "highlightImportantNeighbors s neighbor [] acc = acc"
| "highlightImportantNeighbors s neighbor (neighborsImportantNeighbor # rest) (hlNodes, hlEdges) =
     (let g = graphData s;
          justImportant = (case renderer s of None \<Rightarrow> False
                           | Some r \<Rightarrow> renderJustImportantEdges (rsettings r));
          (hlEdges1, visible1) =
            addVisibleEdges justImportant g (edgesFromTo g neighbor neighborsImportantNeighbor)
              (hlEdges, False);
          (hlEdges2, visible2) =
            (if importantNeighborsBidirectional (configuration s)
             then addVisibleEdges justImportant g (edgesFromTo g neighborsImportantNeighbor neighbor)
                    (hlEdges1, visible1)
             else (hlEdges1, visible1))
      in highlightImportantNeighbors s neighbor rest
           (if visible2 then insert neighborsImportantNeighbor hlNodes else hlNodes, hlEdges2))"

text \<open>The first part of the body of the outer loop: the neighbor and the edges to and
  from it, with the flag \<open>isAtLeastOneEdgeVisible\<close>.\<close>

definition highlightDirectNeighbor :: "webgraph \<Rightarrow> key \<Rightarrow> key \<Rightarrow> key set \<times> key set
    \<Rightarrow> key set \<times> key set \<times> bool" where
  "highlightDirectNeighbor s node neighbor acc =
     (let g = graphData s; hlNodes = fst acc; hlEdges = snd acc in
      if isJustImportantEdgesEnabled s
      then
        let r1 = addImportantEdges g (edgesFromTo g node neighbor) (hlEdges, False);
            r2 = addImportantEdges g (edgesFromTo g neighbor node) r1
        in (if snd r2 then insert neighbor hlNodes else hlNodes, fst r2, snd r2)
      else
        (insert neighbor hlNodes,
         hlEdges \<union> set (edgesFromTo g node neighbor) \<union> set (edgesFromTo g neighbor node),
         True))"

text \<open>The second part: \<open>importantNeighborsOfNeighbor\<close>, gathered with
  \<open>forEachNeighbor\<close>.\<close>

definition importantNeighborsOfNeighbor :: "webgraph \<Rightarrow> key \<Rightarrow> bool \<Rightarrow> key list" where
  "importantNeighborsOfNeighbor s neighbor isAtLeastOneEdgeVisible =
     (let g = graphData s in
      if isAtLeastOneEdgeVisible \<and> includeImportantNeighbors (configuration s)
      then filter (\<lambda>nn. getNodeAttribute g nn ''important'' = JBool True
                        \<and> \<not> truthy (getNodeAttribute g nn ''hidden''))
             (neighbors g neighbor)
      else [])"

text \<open>The outer loop, over \<open>directNeighbors\<close>; a hidden neighbor is skipped.\<close>

fun highlightNeighbors :: "webgraph \<Rightarrow> key \<Rightarrow> key list \<Rightarrow> key set \<times> key set
    \<Rightarrow> key set \<times> key set" where
  "highlightNeighbors s node [] acc = acc"
| "highlightNeighbors s node (neighbor # rest) acc =
     highlightNeighbors s node rest
       (if truthy (getNodeAttribute (graphData s) neighbor ''hidden'') then acc
        else
          let d = highlightDirectNeighbor s node neighbor acc
          in highlightImportantNeighbors s neighbor
               (importantNeighborsOfNeighbor s neighbor (snd (snd d))) (fst d, fst (snd d)))"

definition highlightSubgraphOfNode :: "webgraph \<Rightarrow> key \<Rightarrow> webgraph" where
  "highlightSubgraphOfNode s node =
     (let (hlNodes, hlEdges) =
            highlightNeighbors s node (neighbors (graphData s) node)
              (highlightedNodes s, highlightedEdges s)
      in s\<lparr>highlightedNodes := hlNodes, highlightedEdges := hlEdges\<rparr>)"

text \<open>The handler of the renderer's \<open>enterNode\<close> event. It is registered by \<open>render\<close>; when
  \<open>highlightSubGraphOnHover\<close> is off the handler only emits the event.\<close>

definition enterNode :: "webgraph \<Rightarrow> key \<Rightarrow> webgraph" where
  "enterNode s node =
     (if \<not> highlightSubGraphOnHover (configuration s) then s
      else
        let s1 = s\<lparr>hoveredNode := Some node\<rparr>;
            s2 = (if \<not> isEdgeRenderingDisabled s1
                     \<and> \<not> truthy (getNodeAttribute (graphData s1) node ''hidden'')
                  then highlightSubgraphOfNode s1 node
                  else s1)
        in s2\<lparr>highlightedNodes := insert node (highlightedNodes s2)\<rparr>)"

text \<open>The handler of the renderer's \<open>leaveNode\<close> event: the \<open>z\<close> attribute of the
  node and of everything highlighted goes back to 0 and the sets are cleared. When
  \<open>highlightSubGraphOnHover\<close> is off the handler only hides the node info box.\<close>

definition leaveNode :: "webgraph \<Rightarrow> key \<Rightarrow> webgraph" where
  "leaveNode s node =
     (if \<not> highlightSubGraphOnHover (configuration s) then hideNodeInfoBoxContainer s False
      else
        let s1 = s\<lparr>hoveredNode := None\<rparr>;
            g = graphData s1;
            g1 = (if hasNode g node then setNodeAttribute g node ''z'' (JNum 0) else g);
            g2 = g1\<lparr>nodeMap := (\<lambda>k. if k \<in> highlightedNodes s1
                                      then map_option (\<lambda>a. a(''z'' \<mapsto> JNum 0)) (nodeMap g1 k)
                                      else nodeMap g1 k)\<rparr>;
            g3 = g2\<lparr>edgeList := map (\<lambda>(ek, e). if ek \<in> highlightedEdges s1
                                                then (ek, e\<lparr>eattributes := (eattributes e)(''z'' \<mapsto> JNum 0)\<rparr>)
                                                else (ek, e)) (edgeList g2)\<rparr>;
            s2 = s1\<lparr>graphData := g3, highlightedNodes := {}, highlightedEdges := {}\<rparr>
        in hideNodeInfoBoxContainer s2 False)"

section \<open>Construction\<close>

text \<open>The constructor and the initialisers of the fields.\<close>

definition newWebGraph :: "graph \<Rightarrow> configuration \<Rightarrow> webgraph" where
  "newWebGraph g c =
     \<lparr>graphData = g, configuration = c, appState = INACTIVE, renderer = None,
      highlightedNodes = {}, highlightedEdges = {}, hoveredNode = None,
      isNodeInfoBoxContainerVisible = False, isHistoryEnabled = False, history = None,
      isEdgeRenderingDisabled = False, isJustImportantEdgesEnabled = False,
      isNodeBackdropRenderingEnabled = False\<rparr>"

section \<open>Results of operations\<close>

text \<open>The state an operation leaves, whether it returns or throws.\<close>

definition result_state :: "'a result \<Rightarrow> webgraph" where
  "result_state r = (case r of Inl (e, s) \<Rightarrow> s | Inr (b, s) \<Rightarrow> s)"

definition result_value :: "'a result \<Rightarrow> 'a option" where
  "result_value r = (case r of Inl (e, s) \<Rightarrow> None | Inr (b, s) \<Rightarrow> Some b)"

definition result_error :: "'a result \<Rightarrow> error option" where
  "result_error r = (case r of Inl (e, s) \<Rightarrow> Some e | Inr (b, s) \<Rightarrow> None)"

section \<open>Predicates and functions of the statements\<close>

text \<open>The payload field the switch of \<open>undo\<close> asks of an action of each kind.\<close>

definition undo_payload :: "action \<Rightarrow> bool" where
  "undo_payload a =
     (case actionType a of
        UPDATE_APP_MODE \<Rightarrow> d_appMode (oldData a) \<noteq> None
      | UPDATE_OR_ADD_NODE \<Rightarrow> d_nodes (oldData a) \<noteq> None \<and> d_nodes (newData a) \<noteq> None
      | DROP_NODE \<Rightarrow> d_nodes (oldData a) \<noteq> None \<and> d_edges (oldData a) \<noteq> None
      | UPDATE_NODE_TYPE \<Rightarrow> d_nodeType (oldData a) \<noteq> None
      | REPLACE_EDGES \<Rightarrow> d_edges (oldData a) \<noteq> None
      | UPDATE_OR_ADD_EDGE \<Rightarrow> d_edges (oldData a) \<noteq> None
      | TOGGLE_EDGE_RENDERING \<Rightarrow> d_toggleEdgeRendering (oldData a) \<noteq> None
      | TOGGLE_IMPORTANT_EDGE_RENDERING \<Rightarrow> d_toggleEdgeRendering (oldData a) \<noteq> None
      | SET_LAYOUT \<Rightarrow> d_layoutMapping (oldData a) \<noteq> None)"

text \<open>The payload field the switch of \<open>redo\<close> asks of an action of each kind.\<close>

definition redo_payload :: "action \<Rightarrow> bool" where
  "redo_payload a =
     (case actionType a of
        UPDATE_APP_MODE \<Rightarrow> d_appMode (newData a) \<noteq> None
      | UPDATE_OR_ADD_NODE \<Rightarrow> d_nodes (newData a) \<noteq> None
      | DROP_NODE \<Rightarrow> d_nodes (oldData a) \<noteq> None
      | UPDATE_NODE_TYPE \<Rightarrow> d_nodeType (newData a) \<noteq> None
      | REPLACE_EDGES \<Rightarrow> d_edges (newData a) \<noteq> None
      | UPDATE_OR_ADD_EDGE \<Rightarrow> d_edges (newData a) \<noteq> None
      | TOGGLE_EDGE_RENDERING \<Rightarrow> d_toggleEdgeRendering (newData a) \<noteq> None
      | TOGGLE_IMPORTANT_EDGE_RENDERING \<Rightarrow> d_toggleEdgeRendering (newData a) \<noteq> None
      | SET_LAYOUT \<Rightarrow> d_layoutMapping (newData a) \<noteq> None)"

text \<open>The edges of a payload are a \<open>Set\<close>, as every caller typed by the signatures
  passes them.\<close>

definition edges_are_set :: "action_data \<Rightarrow> bool" where
  "edges_are_set d = (d_edges d \<noteq> Some PlainObject)"


text \<open>The invariant of the graph store: edge keys are unique, and both ends of an edge
  are nodes of the graph.\<close>

definition wf_graph :: "graph \<Rightarrow> bool" where
  "wf_graph g =
     (distinct (map fst (edgeList g)) \<and>
      (\<forall>(ek, e) \<in> set (edgeList g). hasNode g (src e) \<and> hasNode g (tgt e)))"

text \<open>What the loop of \<open>dropNodes\<close> does to the graph and what it collects, for an array
  of keys: the graph after the drops, the nodes and the edges recorded for the history.\<close>

fun dropMany :: "graph \<Rightarrow> key list \<Rightarrow> graph" where
  "dropMany g [] = g"
| "dropMany g (k # ks) = dropMany (if hasNode g k then dropNode g k else g) ks"

fun droppedNodes :: "graph \<Rightarrow> key list \<Rightarrow> serialized_node list" where
  "droppedNodes g [] = []"
| "droppedNodes g (k # ks) =
     (if hasNode g k
      then \<lparr>key = k, attributes = getNodeAttributes g k\<rparr> # droppedNodes (dropNode g k) ks
      else droppedNodes g ks)"

definition serializeEdge :: "graph \<Rightarrow> key \<Rightarrow> serialized_edge" where
  "serializeEdge g edge =
     \<lparr>edgeKey = Some edge, source = edgeSource g edge, target = edgeTarget g edge,
      edgeAttributes = getEdgeAttributes g edge\<rparr>"

fun removedEdges :: "graph \<Rightarrow> key list \<Rightarrow> serialized_edge list" where
  "removedEdges g [] = []"
| "removedEdges g (k # ks) =
     (if hasNode g k
      then map (serializeEdge g) (edgesOf g k) @ removedEdges (dropNode g k) ks
      else removedEdges g ks)"

text \<open>The entry of the edge list a serialized edge with a key stands for.\<close>

definition toEntry :: "serialized_edge \<Rightarrow> key \<times> edge_data" where
  "toEntry e = (case edgeKey e of None \<Rightarrow> [] | Some k \<Rightarrow> k,
                \<lparr>src = source e, tgt = target e, eattributes = edgeAttributes e\<rparr>)"

text \<open>The snapshot \<open>mergeNodes\<close> records of the nodes that exist already.\<close>

definition snapshots :: "graph \<Rightarrow> serialized_node list \<Rightarrow> serialized_node list" where
  "snapshots g nodes =
     map (\<lambda>n. \<lparr>key = key n, attributes = getNodeAttributes g (key n)\<rparr>)
       (filter (\<lambda>n. hasNode g (key n)) nodes)"

section \<open>Example graphs and configurations\<close>

definition plainSettings :: settings where
  "plainSettings = \<lparr>hideEdges = False, renderJustImportantEdges = False, renderNodeBackdrop = False,
                     settingsDefaultNodeType = RING, clusterColors = Map.empty\<rparr>"

definition historyConfig :: configuration where
  "historyConfig = \<lparr>appMode = STATIC, enableHistory = True, defaultNodeType = RING,
                     highlightSubGraphOnHover = True, includeImportantNeighbors = False,
                     importantNeighborsBidirectional = False, nodeInfoBox = False,
                     sigmaSettings = plainSettings\<rparr>"

definition emptyGraph :: graph where
  "emptyGraph = \<lparr>nodeMap = Map.empty, edgeList = []\<rparr>"

text \<open>The widget after \<open>new WebGraph(container, g, c)\<close> and \<open>render()\<close>.\<close>

definition rendered :: "graph \<Rightarrow> configuration \<Rightarrow> webgraph" where
  "rendered g c = (case render (newWebGraph g c) of Inl (e, s) \<Rightarrow> s | Inr s \<Rightarrow> s)"

text \<open>A rendered widget after one recorded \<open>toggleEdgeRendering\<close>, with and without
  argument, after the undo of the latter, and after one recorded \<open>mergeEdges\<close>.\<close>

definition toggledWithArgument :: webgraph where
  "toggledWithArgument = toggleEdgeRendering (rendered emptyGraph historyConfig) (Some True) True"

definition toggledWithoutArgument :: webgraph where
  "toggledWithoutArgument = toggleEdgeRendering (rendered emptyGraph historyConfig) None True"

definition toggleUndone :: webgraph where
  "toggleUndone = result_state (undo toggledWithoutArgument)"

definition edgeMerged :: webgraph where
  "edgeMerged =
     result_state (mergeEdges (rendered emptyGraph historyConfig)
       (EdgeSet [\<lparr>edgeKey = Some ''e1'', source = ''n1'', target = ''n2'', edgeAttributes = Map.empty\<rparr>])
       True)"




text \<open>Two nodes joined by an edge whose key is the empty string, and the widget after
  \<open>dropNodes(['a'])\<close>.\<close>

definition emptyKeyGraph :: graph where
  "emptyKeyGraph =
     \<lparr>nodeMap = [''a'' \<mapsto> Map.empty, ''b'' \<mapsto> Map.empty],
      edgeList = [('''', \<lparr>src = ''a'', tgt = ''b'', eattributes = [''hidden'' \<mapsto> JBool True]\<rparr>)]\<rparr>"

definition emptyKeyDropped :: webgraph where
  "emptyKeyDropped = snd (dropNodes (rendered emptyKeyGraph historyConfig) [KeyRef ''a''] True)"

text \<open>An array that names the node \<open>a\<close> twice, a graph that holds \<open>a\<close>, and the widget
  after \<open>mergeNodes\<close> of the array into the empty graph and into that graph.\<close>

definition duplicateKeyNodes :: "serialized_node list" where
  "duplicateKeyNodes =
     [\<lparr>key = ''a'', attributes = [''x'' \<mapsto> JNum 1]\<rparr>, \<lparr>key = ''a'', attributes = [''y'' \<mapsto> JNum 2]\<rparr>]"

definition singleNodeGraph :: graph where
  "singleNodeGraph = \<lparr>nodeMap = [''a'' \<mapsto> [''z'' \<mapsto> JNum 0]], edgeList = []\<rparr>"

definition duplicateMergedNew :: webgraph where
  "duplicateMergedNew = snd (mergeNodes (rendered emptyGraph historyConfig) duplicateKeyNodes True)"

definition duplicateMergedExisting :: webgraph where
  "duplicateMergedExisting = snd (mergeNodes (rendered singleNodeGraph historyConfig) duplicateKeyNodes True)"

text \<open>Two nodes joined by a hidden edge with the key \<open>e1\<close>.\<close>

definition hiddenEdgeGraph :: graph where
  "hiddenEdgeGraph =
     \<lparr>nodeMap = [''n1'' \<mapsto> [''x'' \<mapsto> JNum 3], ''n2'' \<mapsto> Map.empty],
      edgeList = [(''e1'', \<lparr>src = ''n1'', tgt = ''n2'', eattributes = [''hidden'' \<mapsto> JBool True]\<rparr>)]\<rparr>"

section \<open>Results and errors\<close>

lemma result_state_simps [simp]:
  "result_state (Inl (e, s)) = s" "result_state (Inr (b, s)) = s"
  by (simp_all add: result_state_def)

lemma result_state_rethrow [simp]:
  "result_state (case r of Inl e \<Rightarrow> Inl e | Inr (b, s) \<Rightarrow> Inr (c, s)) = result_state r"
  by (cases r) (auto simp: result_state_def split: prod.splits)

section \<open>The activation state is left alone outside render and destroy\<close>

lemma appState_history_addAction [simp]: "appState (history_addAction old ty new s) = appState s"
  by (simp add: history_addAction_def)

lemma appState_hideNodeInfoBoxContainer [simp]: "appState (hideNodeInfoBoxContainer s b) = appState s"
  by (simp add: hideNodeInfoBoxContainer_def)

lemma appState_dropNodes_each:
  "appState (fst (dropNodes_each r ns (s, na, es))) = appState s"
proof (induction ns arbitrary: s na es)
  case Nil
  show ?case by simp
next
  case (Cons n ns)
  show ?case by (simp add: Let_def Cons.IH)
qed

lemma appState_dropNodes [simp]: "appState (snd (dropNodes s ns a)) = appState s"
  by (simp add: dropNodes_def Let_def case_prod_beta appState_dropNodes_each)

lemma appState_mergeNodes [simp]: "appState (snd (mergeNodes s ns a)) = appState s"
  by (simp add: mergeNodes_def Let_def case_prod_beta)

lemma appState_toggleEdgeRendering [simp]: "appState (toggleEdgeRendering s h a) = appState s"
  by (simp add: toggleEdgeRendering_def Let_def renderer_toggleEdgeRendering_def split: option.splits)

lemma appState_toggleJustImportantEdgeRendering [simp]:
  "appState (toggleJustImportantEdgeRendering s h a) = appState s"
  by (simp add: toggleJustImportantEdgeRendering_def Let_def renderer_renderJustImportantEdges_def
      split: option.splits)

lemma appState_mergeEdges [simp]: "appState (result_state (mergeEdges s es a)) = appState s"
  by (simp add: mergeEdges_def Let_def case_prod_beta split: edge_collection.splits)

lemma appState_replaceEdges [simp]: "appState (result_state (replaceEdges s es a)) = appState s"
  by (simp add: replaceEdges_def Let_def)

lemma appState_setAndApplyDefaultNodeType [simp]:
  "appState (snd (setAndApplyDefaultNodeType s t a)) = appState s"
  by (simp add: setAndApplyDefaultNodeType_def Let_def split: option.splits)

lemma appState_animateGraph [simp]: "appState (animateGraph s m) = appState s"
  by (simp add: animateGraph_def)

lemma appState_set_appMode [simp]: "appState (set_appMode s m) = appState s"
  by (simp add: set_appMode_def Let_def)

lemma appState_exportGraph [simp]: "appState (snd (exportGraph s b)) = appState s"
  by (simp add: exportGraph_def Let_def)

lemma appState_clearHistory [simp]: "appState (snd (clearHistory s)) = appState s"
  by (simp add: clearHistory_def)

lemma appState_enterNode [simp]: "appState (enterNode s n) = appState s"
  by (simp add: enterNode_def highlightSubgraphOfNode_def Let_def case_prod_beta)

lemma appState_leaveNode [simp]: "appState (leaveNode s n) = appState s"
  by (simp add: leaveNode_def Let_def)

lemma appState_setAndApplyLayout [simp]: "appState (snd (setAndApplyLayout s l a)) = appState s"
  by (simp add: setAndApplyLayout_def applyLayout_def Let_def case_prod_beta split: option.splits)

lemma appState_toggleNodeBackdropRendering [simp]:
  "appState (result_state (toggleNodeBackdropRendering s c m)) = appState s"
  by (simp add: toggleNodeBackdropRendering_def Let_def split: option.splits)

text \<open>The state a switch of undo or redo leaves.\<close>

lemma appState_switch_rethrow:
  assumes "appState (result_state r) = a"
  shows "(case (case r of Inl e \<Rightarrow> Inl e | Inr (b, s2) \<Rightarrow> Inr (Some s2)) of
            Inl (e, s') \<Rightarrow> appState s' = a
          | Inr None \<Rightarrow> True
          | Inr (Some s') \<Rightarrow> appState s' = a)"
  using assms by (cases r) (auto simp: result_state_def split: prod.splits)

lemma appState_undo_switch:
  "(case undo_switch s a of Inl (e, s') \<Rightarrow> appState s' = appState s | Inr None \<Rightarrow> True
    | Inr (Some s') \<Rightarrow> appState s' = appState s)"
proof (cases "actionType a")
  case DROP_NODE
  then show ?thesis
    by (auto simp: undo_switch_def Let_def intro!: appState_switch_rethrow split: option.splits)
next
  case REPLACE_EDGES
  then show ?thesis
    by (auto simp: undo_switch_def Let_def intro!: appState_switch_rethrow split: option.splits)
next
  case UPDATE_OR_ADD_EDGE
  then show ?thesis
    by (auto simp: undo_switch_def Let_def intro!: appState_switch_rethrow split: option.splits)
qed (simp_all add: undo_switch_def Let_def split: option.splits)

lemma appState_redo_switch:
  "(case redo_switch s a of Inl (e, s') \<Rightarrow> appState s' = appState s | Inr None \<Rightarrow> True
    | Inr (Some s') \<Rightarrow> appState s' = appState s)"
proof (cases "actionType a")
  case REPLACE_EDGES
  then show ?thesis
    by (auto simp: redo_switch_def Let_def intro!: appState_switch_rethrow split: option.splits)
next
  case UPDATE_OR_ADD_EDGE
  then show ?thesis
    by (auto simp: redo_switch_def Let_def intro!: appState_switch_rethrow split: option.splits)
qed (simp_all add: redo_switch_def Let_def split: option.splits)

lemma appState_undo [simp]: "appState (result_state (undo s)) = appState s"
proof (cases "case history s of None \<Rightarrow> None | Some h \<Rightarrow> getLatestAction h")
  case None
  then show ?thesis by (simp add: undo_def)
next
  case (Some a)
  show ?thesis
    using appState_undo_switch [of s a] Some
    by (auto simp: undo_def split: sum.splits option.splits prod.splits)
qed

lemma appState_redo [simp]: "appState (result_state (redo s)) = appState s"
proof (cases "case history s of None \<Rightarrow> None | Some h \<Rightarrow> getLatestRevertedAction h")
  case None
  then show ?thesis by (simp add: redo_def)
next
  case (Some a)
  show ?thesis
    using appState_redo_switch [of s a] Some
    by (auto simp: redo_def split: sum.splits option.splits prod.splits)
qed

section \<open>Edge rendering, return values, export and the life cycle\<close>

lemmas example_defs = rendered_def newWebGraph_def render_def isRenderingActive_def
  overwriteRenderSettings_def historyConfig_def plainSettings_def emptyGraph_def Let_def

text \<open>
  C7: \<open>toggleEdgeRendering()\<close> without an argument flips the flag
  \<open>isEdgeRenderingDisabled\<close>, and a second call without an argument gives back the value
  the flag had at the start, whether or not the calls are recorded in the history.
\<close>

theorem toggleEdgeRendering_involution:
  "isEdgeRenderingDisabled (toggleEdgeRendering s None a) = (\<not> isEdgeRenderingDisabled s) \<and>
   isEdgeRenderingDisabled (toggleEdgeRendering (toggleEdgeRendering s None a) None b)
     = isEdgeRenderingDisabled s"
  by (simp add: toggleEdgeRendering_def Let_def renderer_toggleEdgeRendering_def history_addAction_def)

theorem toggleEdgeRendering_involution_witness:
  "isEdgeRenderingDisabled (rendered emptyGraph historyConfig) = False \<and>
   isEdgeRenderingDisabled (toggleEdgeRendering (rendered emptyGraph historyConfig) None True) = True \<and>
   isEdgeRenderingDisabled
     (toggleEdgeRendering (toggleEdgeRendering (rendered emptyGraph historyConfig) None True) None True)
     = False"
  using toggleEdgeRendering_involution [of "rendered emptyGraph historyConfig" True True]
  by (simp add: example_defs)

text \<open>
  C8: \<open>mergeNodes\<close> returns false exactly when the array of nodes is empty and true for
  every other array, whatever the graph holds; \<open>dropNodes\<close> returns true for every array,
  the empty one and one of keys the graph does not have included.
\<close>

theorem mergeNodes_dropNodes_return:
  "(fst (mergeNodes s nodes a) = False \<longleftrightarrow> nodes = []) \<and>
   (fst (mergeNodes s nodes a) = True \<longleftrightarrow> nodes \<noteq> []) \<and>
   fst (dropNodes s refs b) = True"
  by (simp add: mergeNodes_def dropNodes_def Let_def case_prod_beta)

theorem mergeNodes_dropNodes_return_witness:
  "fst (mergeNodes (rendered emptyGraph historyConfig) [] True) = False \<and>
   fst (mergeNodes (rendered emptyGraph historyConfig) [\<lparr>key = ''n1'', attributes = Map.empty\<rparr>] True) = True \<and>
   fst (dropNodes (rendered emptyGraph historyConfig) [] True) = True \<and>
   fst (dropNodes (rendered emptyGraph historyConfig) [KeyRef ''n1''] True) = True"
  using mergeNodes_dropNodes_return [of "rendered emptyGraph historyConfig" "[]" True "[]" True]
    mergeNodes_dropNodes_return [of "rendered emptyGraph historyConfig"
      "[\<lparr>key = ''n1'', attributes = Map.empty\<rparr>]" True "[KeyRef ''n1'']" True]
  by simp

text \<open>
  C9: \<open>exportGraph(true)\<close> clears the edges of the graph the widget holds, which is the
  caller's own graph when the constructor was given a graph object, before it exports:
  after the call the graph has no edge, and neither has the exported copy, while the nodes
  are as before. \<open>exportGraph(false)\<close> exports the graph and leaves the widget and the
  graph as they were.
\<close>

theorem exportGraph_clears_edges:
  "edgeList (graphData (snd (exportGraph s True))) = [] \<and>
   edgeList (fst (exportGraph s True)) = [] \<and>
   nodeMap (graphData (snd (exportGraph s True))) = nodeMap (graphData s) \<and>
   exportGraph s False = (graphData s, s)"
  by (simp add: exportGraph_def Let_def clearEdges_def)

text \<open>
  C10: \<open>destroy()\<close> has no failing path, and whatever the state before, also INACTIVE or
  just destroyed, it leaves the widget INACTIVE, without renderer, with empty sets of
  highlighted nodes and edges, no hovered node and no history; a second \<open>destroy()\<close>
  changes nothing.
\<close>

theorem destroy_idempotent:
  "appState (destroy s) = INACTIVE \<and> renderer (destroy s) = None \<and>
   highlightedNodes (destroy s) = {} \<and> highlightedEdges (destroy s) = {} \<and>
   hoveredNode (destroy s) = None \<and> history (destroy s) = None \<and>
   destroy (destroy s) = destroy s"
  by (simp add: destroy_def)

text \<open>
  C6: \<open>render()\<close> on an ACTIVE widget throws and leaves the state alone, so of two calls
  in a row the second fails; on an INACTIVE widget it succeeds and the widget is ACTIVE.
  \<open>destroy()\<close> makes the widget INACTIVE, and \<open>render()\<close> after it succeeds. No other
  operation changes the activation state, whether it returns or throws.
\<close>

theorem render_destroy_lifecycle:
  "(appState s = ACTIVE \<longrightarrow> render s = Inl (AlreadyRendering, s)) \<and>
   (appState s = INACTIVE \<longrightarrow>
      (\<exists>s'. render s = Inr s' \<and> appState s' = ACTIVE \<and> render s' = Inl (AlreadyRendering, s'))) \<and>
   appState (destroy s) = INACTIVE \<and>
   (\<exists>s'. render (destroy s) = Inr s' \<and> appState s' = ACTIVE) \<and>
   appState (snd (mergeNodes s ns a)) = appState s \<and>
   appState (snd (dropNodes s refs a)) = appState s \<and>
   appState (result_state (mergeEdges s es a)) = appState s \<and>
   appState (result_state (replaceEdges s es a)) = appState s \<and>
   appState (toggleEdgeRendering s h a) = appState s \<and>
   appState (toggleJustImportantEdgeRendering s h a) = appState s \<and>
   appState (snd (setAndApplyDefaultNodeType s t a)) = appState s \<and>
   appState (set_appMode s m) = appState s \<and>
   appState (result_state (undo s)) = appState s \<and>
   appState (result_state (redo s)) = appState s \<and>
   appState (snd (clearHistory s)) = appState s \<and>
   appState (snd (exportGraph s a)) = appState s \<and>
   appState (snd (setAndApplyLayout s l a)) = appState s \<and>
   appState (result_state (toggleNodeBackdropRendering s c h)) = appState s \<and>
   appState (enterNode s n) = appState s \<and>
   appState (leaveNode s n) = appState s"
proof -
  have active: "appState s = ACTIVE \<longrightarrow> render s = Inl (AlreadyRendering, s)"
    by (simp add: render_def isRenderingActive_def)
  have inactive: "appState s = INACTIVE \<longrightarrow>
      (\<exists>s'. render s = Inr s' \<and> appState s' = ACTIVE \<and> render s' = Inl (AlreadyRendering, s'))"
    by (simp add: render_def isRenderingActive_def Let_def overwriteRenderSettings_def)
  have destroyed: "appState (destroy s) = INACTIVE"
    by (simp add: destroy_def)
  have again: "\<exists>s'. render (destroy s) = Inr s' \<and> appState s' = ACTIVE"
    by (simp add: render_def destroy_def isRenderingActive_def Let_def overwriteRenderSettings_def)
  show ?thesis
    using active inactive destroyed again by simp
qed

theorem render_destroy_lifecycle_witness:
  "appState (newWebGraph emptyGraph historyConfig) = INACTIVE \<and>
   appState (rendered emptyGraph historyConfig) = ACTIVE \<and>
   render (newWebGraph emptyGraph historyConfig) = Inr (rendered emptyGraph historyConfig) \<and>
   render (rendered emptyGraph historyConfig) = Inl (AlreadyRendering, rendered emptyGraph historyConfig) \<and>
   (\<exists>s'. render (destroy (rendered emptyGraph historyConfig)) = Inr s' \<and> appState s' = ACTIVE)"
  using render_destroy_lifecycle [of "rendered emptyGraph historyConfig"]
    render_destroy_lifecycle [of "newWebGraph emptyGraph historyConfig"]
  by (simp add: example_defs)

text \<open>
  C3: a call of \<open>toggleJustImportantEdgeRendering\<close> that is recorded forces edge rendering
  on, and it appends two actions to the history: the inner \<open>toggleEdgeRendering(false)\<close>
  records an action of its own, of kind TOGGLE_EDGE_RENDERING, before the action of kind
  TOGGLE_IMPORTANT_EDGE_RENDERING is recorded.
\<close>

theorem toggleJustImportantEdgeRendering_records_twice:
  assumes "isHistoryEnabled s" and "history s = Some h"
  shows "\<exists>a1 a2.
           history (toggleJustImportantEdgeRendering s r True)
             = Some (filter (\<lambda>a. \<not> reverted a) h @ [a1, a2]) \<and>
           actionType a1 = TOGGLE_EDGE_RENDERING \<and>
           actionType a2 = TOGGLE_IMPORTANT_EDGE_RENDERING \<and>
           isEdgeRenderingDisabled (toggleJustImportantEdgeRendering s r True) = False"
  using assms
  by (cases r)
     (simp_all add: toggleJustImportantEdgeRendering_def toggleEdgeRendering_def Let_def
        renderer_renderJustImportantEdges_def renderer_toggleEdgeRendering_def
        history_addAction_def addAction_def)

theorem toggleJustImportantEdgeRendering_records_twice_witness:
  "isHistoryEnabled (rendered emptyGraph historyConfig) \<and>
   history (rendered emptyGraph historyConfig) = Some [] \<and>
   (\<exists>a1 a2.
      history (toggleJustImportantEdgeRendering (rendered emptyGraph historyConfig) (Some True) True)
        = Some [a1, a2] \<and>
      actionType a1 = TOGGLE_EDGE_RENDERING \<and> actionType a2 = TOGGLE_IMPORTANT_EDGE_RENDERING)"
proof -
  have e: "isHistoryEnabled (rendered emptyGraph historyConfig)"
    by (simp add: example_defs)
  have h: "history (rendered emptyGraph historyConfig) = Some []"
    by (simp add: example_defs)
  show ?thesis
    using toggleJustImportantEdgeRendering_records_twice [OF e h, of "Some True"] e h
    by auto
qed

section \<open>What undo and redo return\<close>

lemma getLatestAction_None: "getLatestAction h = None \<longleftrightarrow> (\<forall>a\<in>set h. reverted a)"
  by (auto simp: getLatestAction_def find_None_iff)

lemma getLatestRevertedAction_None: "getLatestRevertedAction h = None \<longleftrightarrow> (\<forall>a\<in>set h. \<not> reverted a)"
  by (auto simp: getLatestRevertedAction_def find_None_iff)

lemma mergeEdges_set_returns: "\<exists>b s'. mergeEdges s (EdgeSet es) a = Inr (b, s')"
  by (cases es) (auto simp: mergeEdges_def Let_def case_prod_beta)

lemma replaceEdges_set_returns: "\<exists>s'. replaceEdges s (EdgeSet es) a = Inr (True, s')"
proof -
  let ?s1 = "if isHistoryEnabled s \<and> a
             then history_addAction (noData\<lparr>d_edges := Some (EdgeSet (allEdges (graphData s)))\<rparr>)
                    REPLACE_EDGES (noData\<lparr>d_edges := Some (EdgeSet es)\<rparr>) s
             else s"
  obtain b s' where "mergeEdges (?s1\<lparr>graphData := clearEdges (graphData ?s1)\<rparr>) (EdgeSet es) False = Inr (b, s')"
    using mergeEdges_set_returns by blast
  then show ?thesis
    by (simp add: replaceEdges_def Let_def)
qed

lemma replaceEdges_plain_throws:
  "replaceEdges s PlainObject False = Inl (TypeError, s\<lparr>graphData := clearEdges (graphData s)\<rparr>)"
  by (simp add: replaceEdges_def mergeEdges_def Let_def)

lemma undo_switch_missing: "\<not> undo_payload a \<Longrightarrow> undo_switch s a = Inr None"
  by (cases "actionType a") (auto simp: undo_payload_def undo_switch_def split: option.splits)

lemma redo_switch_missing: "\<not> redo_payload a \<Longrightarrow> redo_switch s a = Inr None"
  by (cases "actionType a") (auto simp: redo_payload_def redo_switch_def split: option.splits)

lemma undo_switch_present:
  assumes "undo_payload a" and "actionType a \<noteq> UPDATE_OR_ADD_EDGE" and "edges_are_set (oldData a)"
  shows "\<exists>s'. undo_switch s a = Inr (Some s')"
proof (cases "actionType a")
  case DROP_NODE
  with assms obtain ns es where p: "d_nodes (oldData a) = Some ns" "d_edges (oldData a) = Some (EdgeSet es)"
    by (cases "d_edges (oldData a)"; cases "the (d_edges (oldData a))")
       (auto simp: undo_payload_def edges_are_set_def)
  obtain b s' where "mergeEdges (snd (mergeNodes s ns False)) (EdgeSet es) False = Inr (b, s')"
    using mergeEdges_set_returns by blast
  then show ?thesis using DROP_NODE p by (simp add: undo_switch_def Let_def)
next
  case REPLACE_EDGES
  with assms obtain es where p: "d_edges (oldData a) = Some (EdgeSet es)"
    by (cases "d_edges (oldData a)"; cases "the (d_edges (oldData a))")
       (auto simp: undo_payload_def edges_are_set_def)
  obtain s' where "replaceEdges s (EdgeSet es) False = Inr (True, s')"
    using replaceEdges_set_returns by blast
  then show ?thesis using REPLACE_EDGES p by (simp add: undo_switch_def)
next
  case UPDATE_OR_ADD_EDGE
  with assms show ?thesis by simp
qed (use assms in \<open>auto simp: undo_payload_def undo_switch_def Let_def split: option.splits\<close>)

lemma redo_switch_present:
  assumes "redo_payload a" and "edges_are_set (newData a)"
  shows "\<exists>s'. redo_switch s a = Inr (Some s')"
proof (cases "actionType a")
  case REPLACE_EDGES
  with assms obtain es where p: "d_edges (newData a) = Some (EdgeSet es)"
    by (cases "d_edges (newData a)"; cases "the (d_edges (newData a))")
       (auto simp: redo_payload_def edges_are_set_def)
  obtain s' where "replaceEdges s (EdgeSet es) False = Inr (True, s')"
    using replaceEdges_set_returns by blast
  then show ?thesis using REPLACE_EDGES p by (simp add: redo_switch_def)
next
  case UPDATE_OR_ADD_EDGE
  with assms obtain es where p: "d_edges (newData a) = Some (EdgeSet es)"
    by (cases "d_edges (newData a)"; cases "the (d_edges (newData a))")
       (auto simp: redo_payload_def edges_are_set_def)
  obtain b s' where "mergeEdges s (EdgeSet es) False = Inr (b, s')"
    using mergeEdges_set_returns by blast
  then show ?thesis using UPDATE_OR_ADD_EDGE p by (simp add: redo_switch_def)
qed (use assms in \<open>auto simp: redo_payload_def redo_switch_def Let_def split: option.splits\<close>)

lemma undo_switch_edge_throws:
  assumes "actionType a = UPDATE_OR_ADD_EDGE" and "undo_payload a"
  shows "undo_switch s a = Inl (TypeError, s\<lparr>graphData := clearEdges (graphData s)\<rparr>)"
  using assms by (auto simp: undo_switch_def undo_payload_def replaceEdges_plain_throws)

text \<open>
  The paths of \<open>undo()\<close> and \<open>redo()\<close>, as the code has them. Both throw when there is no
  renderer or the widget is not ACTIVE, and when the history is disabled. Otherwise each
  returns false when no action is eligible (every action reverted for undo, none reverted
  for redo); each returns false too when the guard of the switch finds the payload field
  of the eligible action absent, and true when the field is present and the edges in it
  are a set. The undo of an action of kind UPDATE_OR_ADD_EDGE is not among these paths: it
  throws, see \<open>undo_after_mergeEdges_throws\<close>.
\<close>

lemma undo_redo_cases:
  "(renderer s = None \<or> appState s \<noteq> ACTIVE \<longrightarrow>
      undo s = Inl (RenderingInactive, s) \<and> redo s = Inl (RenderingInactive, s)) \<and>
   (renderer s \<noteq> None \<and> appState s = ACTIVE \<and> \<not> isHistoryEnabled s \<longrightarrow>
      undo s = Inl (HistoryDisabled, s) \<and> redo s = Inl (HistoryDisabled, s)) \<and>
   (renderer s \<noteq> None \<and> appState s = ACTIVE \<and> isHistoryEnabled s \<and> history s = None \<longrightarrow>
      undo s = Inr (False, s) \<and> redo s = Inr (False, s)) \<and>
   (renderer s \<noteq> None \<and> appState s = ACTIVE \<and> isHistoryEnabled s \<and> history s = Some h \<longrightarrow>
      ((\<forall>a\<in>set h. reverted a) \<longrightarrow> undo s = Inr (False, s)) \<and>
      ((\<forall>a\<in>set h. \<not> reverted a) \<longrightarrow> redo s = Inr (False, s)) \<and>
      (\<forall>a. getLatestAction h = Some a \<and> \<not> undo_payload a \<longrightarrow> undo s = Inr (False, s)) \<and>
      (\<forall>a. getLatestRevertedAction h = Some a \<and> \<not> redo_payload a \<longrightarrow> redo s = Inr (False, s)) \<and>
      (\<forall>a. getLatestAction h = Some a \<and> undo_payload a \<and> actionType a \<noteq> UPDATE_OR_ADD_EDGE
            \<and> edges_are_set (oldData a) \<longrightarrow> (\<exists>s'. undo s = Inr (True, s'))) \<and>
      (\<forall>a. getLatestRevertedAction h = Some a \<and> redo_payload a \<and> edges_are_set (newData a)
            \<longrightarrow> (\<exists>s'. redo s = Inr (True, s'))))"
proof -
  have inactive: "renderer s = None \<or> appState s \<noteq> ACTIVE \<longrightarrow>
      undo s = Inl (RenderingInactive, s) \<and> redo s = Inl (RenderingInactive, s)"
    by (auto simp: undo_def redo_def isRenderingActive_def)
  have disabled: "renderer s \<noteq> None \<and> appState s = ACTIVE \<and> \<not> isHistoryEnabled s \<longrightarrow>
      undo s = Inl (HistoryDisabled, s) \<and> redo s = Inl (HistoryDisabled, s)"
    by (auto simp: undo_def redo_def isRenderingActive_def)
  have unset: "renderer s \<noteq> None \<and> appState s = ACTIVE \<and> isHistoryEnabled s \<and> history s = None \<longrightarrow>
      undo s = Inr (False, s) \<and> redo s = Inr (False, s)"
    by (auto simp: undo_def redo_def isRenderingActive_def)
  have enabled: "((\<forall>a\<in>set h. reverted a) \<longrightarrow> undo s = Inr (False, s)) \<and>
      ((\<forall>a\<in>set h. \<not> reverted a) \<longrightarrow> redo s = Inr (False, s)) \<and>
      (\<forall>a. getLatestAction h = Some a \<and> \<not> undo_payload a \<longrightarrow> undo s = Inr (False, s)) \<and>
      (\<forall>a. getLatestRevertedAction h = Some a \<and> \<not> redo_payload a \<longrightarrow> redo s = Inr (False, s)) \<and>
      (\<forall>a. getLatestAction h = Some a \<and> undo_payload a \<and> actionType a \<noteq> UPDATE_OR_ADD_EDGE
            \<and> edges_are_set (oldData a) \<longrightarrow> (\<exists>s'. undo s = Inr (True, s'))) \<and>
      (\<forall>a. getLatestRevertedAction h = Some a \<and> redo_payload a \<and> edges_are_set (newData a)
            \<longrightarrow> (\<exists>s'. redo s = Inr (True, s')))"
    if act: "renderer s \<noteq> None" "appState s = ACTIVE" "isHistoryEnabled s" "history s = Some h"
  proof (intro conjI allI impI)
    assume "\<forall>a\<in>set h. reverted a"
    then have "getLatestAction h = None" by (simp add: getLatestAction_None)
    then show "undo s = Inr (False, s)"
      using act by (simp add: undo_def isRenderingActive_def)
  next
    assume "\<forall>a\<in>set h. \<not> reverted a"
    then have "getLatestRevertedAction h = None" by (simp add: getLatestRevertedAction_None)
    then show "redo s = Inr (False, s)"
      using act by (simp add: redo_def isRenderingActive_def)
  next
    fix a assume "getLatestAction h = Some a \<and> \<not> undo_payload a"
    then show "undo s = Inr (False, s)"
      using act undo_switch_missing [of a s] by (simp add: undo_def isRenderingActive_def)
  next
    fix a assume "getLatestRevertedAction h = Some a \<and> \<not> redo_payload a"
    then show "redo s = Inr (False, s)"
      using act redo_switch_missing [of a s] by (simp add: redo_def isRenderingActive_def)
  next
    fix a assume a: "getLatestAction h = Some a \<and> undo_payload a \<and> actionType a \<noteq> UPDATE_OR_ADD_EDGE
            \<and> edges_are_set (oldData a)"
    then obtain s' where "undo_switch s a = Inr (Some s')"
      using undo_switch_present [of a s] by blast
    then show "\<exists>s'. undo s = Inr (True, s')"
      using act a by (simp add: undo_def isRenderingActive_def)
  next
    fix a assume a: "getLatestRevertedAction h = Some a \<and> redo_payload a \<and> edges_are_set (newData a)"
    then obtain s' where "redo_switch s a = Inr (Some s')"
      using redo_switch_present [of a s] by blast
    then show "\<exists>s'. redo s = Inr (True, s')"
      using act a by (simp add: redo_def isRenderingActive_def)
  qed
  show ?thesis
    using inactive disabled unset enabled by blast
qed

lemmas toggle_defs = toggleEdgeRendering_def renderer_toggleEdgeRendering_def history_addAction_def
  addAction_def noData_def

lemmas undo_defs = undo_def redo_def undo_switch_def redo_switch_def getLatestAction_def
  getLatestRevertedAction_def markLatestActionAsReverted_def markLatestRevertedActionAsNotReverted_def
  result_state_def result_value_def result_error_def

text \<open>The paths at concrete states: an INACTIVE widget, an empty history, and a toggle
  recorded with its argument, which undo and redo both replay.\<close>

lemma undo_redo_cases_example:
  "renderer (newWebGraph emptyGraph historyConfig) = None \<and>
   undo (newWebGraph emptyGraph historyConfig) = Inl (RenderingInactive, newWebGraph emptyGraph historyConfig) \<and>
   renderer (rendered emptyGraph historyConfig) \<noteq> None \<and>
   appState (rendered emptyGraph historyConfig) = ACTIVE \<and>
   isHistoryEnabled (rendered emptyGraph historyConfig) \<and>
   history (rendered emptyGraph historyConfig) = Some [] \<and>
   undo (rendered emptyGraph historyConfig) = Inr (False, rendered emptyGraph historyConfig) \<and>
   redo (rendered emptyGraph historyConfig) = Inr (False, rendered emptyGraph historyConfig) \<and>
   map_option (map reverted) (history toggledWithArgument) = Some [False] \<and>
   result_value (undo toggledWithArgument) = Some True \<and>
   map_option (map reverted) (history (result_state (undo toggledWithArgument))) = Some [True] \<and>
   result_value (redo (result_state (undo toggledWithArgument))) = Some True"
proof -
  have a: "map_option (map reverted) (history toggledWithArgument) = Some [False] \<and>
      result_value (undo toggledWithArgument) = Some True \<and>
      map_option (map reverted) (history (result_state (undo toggledWithArgument))) = Some [True] \<and>
      result_value (redo (result_state (undo toggledWithArgument))) = Some True"
    by (simp add: toggledWithArgument_def example_defs toggle_defs undo_defs)
  show ?thesis
    using a undo_redo_cases [of "newWebGraph emptyGraph historyConfig" "[]"]
      undo_redo_cases [of "rendered emptyGraph historyConfig" "[]"]
      undo_redo_cases [of toggledWithArgument "the (history toggledWithArgument)"]
    by (simp add: example_defs)
qed

section \<open>Highlighting in important-only mode\<close>












section \<open>Unfolding the graph store and the node operations\<close>

lemmas graph_defs = hasNode_def getNodeAttributes_def getNodeAttribute_def mergeNode_def dropNode_def
  edgesOf_def getEdge_def edgeSource_def edgeTarget_def getEdgeAttributes_def getEdgeAttribute_def
  updateEdgeAttributes_def setEdgeAttribute_def mergeEdgeWithKey_def mergeEdge_def generatedKey_def
  edgesFromTo_def attribute_def object_assign_def json_copy_def json_copy_nodes_def key_truthy_def

lemmas node_defs = mergeNodes_def dropNodes_def mergeEdges_def hideNodeInfoBoxContainer_def
  case_prod_beta

section \<open>The loop of dropNodes\<close>

lemma hideNodeInfoBoxContainer_frame [simp]:
  "graphData (hideNodeInfoBoxContainer s b) = graphData s"
  "renderer (hideNodeInfoBoxContainer s b) = renderer s"
  "isHistoryEnabled (hideNodeInfoBoxContainer s b) = isHistoryEnabled s"
  "history (hideNodeInfoBoxContainer s b) = history s"
  by (simp_all add: hideNodeInfoBoxContainer_def)

lemma dropNodes_each_keys:
  fixes s na ea ks
  defines "r \<equiv> dropNodes_each True (map KeyRef ks) (s, na, ea)"
  shows "graphData (fst r) = dropMany (graphData s) ks \<and>
     fst (snd r) = na @ droppedNodes (graphData s) ks \<and>
     snd (snd r) = ea @ removedEdges (graphData s) ks \<and>
     renderer (fst r) = renderer s \<and> appState (fst r) = appState s \<and>
     isHistoryEnabled (fst r) = isHistoryEnabled s \<and> history (fst r) = history s"
  unfolding r_def
proof (induction ks arbitrary: s na ea)
  case Nil
  show ?case by simp
next
  case (Cons k ks)
  show ?case
  proof (cases "hasNode (graphData s) k")
    case False
    then show ?thesis using Cons.IH [of s na ea] by simp
  next
    case True
    let ?g = "graphData s"
    let ?s4 = "(hideNodeInfoBoxContainer
                 (s\<lparr>highlightedNodes := highlightedNodes s - {k},
                    highlightedEdges := highlightedEdges s - set (edgesOf ?g k)\<rparr>) False)
               \<lparr>graphData := dropNode ?g k\<rparr>"
    have step: "dropNodes_each True (map KeyRef (k # ks)) (s, na, ea) =
        dropNodes_each True (map KeyRef ks)
          (?s4, na @ [\<lparr>key = k, attributes = getNodeAttributes ?g k\<rparr>],
           ea @ map (serializeEdge ?g) (edgesOf ?g k))"
      using True by (simp add: Let_def serializeEdge_def [abs_def])
    show ?thesis
      unfolding step
      using Cons.IH [of ?s4 "na @ [\<lparr>key = k, attributes = getNodeAttributes ?g k\<rparr>]"
          "ea @ map (serializeEdge ?g) (edgesOf ?g k)"] True
      by simp
  qed
qed

section \<open>The graph after the drops\<close>

lemma hasNode_dropNode [simp]: "hasNode (dropNode g k) x \<longleftrightarrow> hasNode g x \<and> x \<noteq> k"
  by (auto simp: dropNode_def hasNode_def)

lemma nodeMap_dropNode [simp]: "nodeMap (dropNode g k) = (nodeMap g)(k := None)"
  by (simp add: dropNode_def)

lemma edgeList_dropNode [simp]:
  "edgeList (dropNode g k) = filter (\<lambda>(ek, e). src e \<noteq> k \<and> tgt e \<noteq> k) (edgeList g)"
  by (simp add: dropNode_def)

lemma nodeMap_dropMany:
  "nodeMap (dropMany g ks) k = (if k \<in> set ks then None else nodeMap g k)"
  by (induction ks arbitrary: g) (auto simp: hasNode_def)

lemma edgeList_dropMany:
  "edgeList (dropMany g ks) =
     filter (\<lambda>(ek, e). \<not> (src e \<in> set ks \<and> hasNode g (src e)) \<and> \<not> (tgt e \<in> set ks \<and> hasNode g (tgt e)))
       (edgeList g)"
proof (induction ks arbitrary: g)
  case Nil
  show ?case by simp
next
  case (Cons k ks)
  show ?case
  proof (cases "hasNode g k")
    case False
    then show ?thesis
      by (auto simp: Cons.IH intro!: filter_cong)
  next
    case True
    then show ?thesis
      by (auto simp: Cons.IH intro!: filter_cong)
  qed
qed

lemma droppedNodes_lookup:
  "map_of (map (\<lambda>n. (key n, attributes n)) (droppedNodes g ks)) k =
     (if k \<in> set ks then nodeMap g k else None)"
proof (induction ks arbitrary: g k)
  case Nil
  show ?case by simp
next
  case (Cons k0 ks)
  show ?case
    by (auto simp: Cons.IH hasNode_def getNodeAttributes_def)
qed

lemma droppedNodes_present: "n \<in> set (droppedNodes g ks) \<Longrightarrow> hasNode g (key n) \<and> key n \<in> set ks"
proof (induction ks arbitrary: g)
  case Nil
  then show ?case by simp
next
  case (Cons k ks)
  show ?case
    using Cons.prems Cons.IH [of "dropNode g k"] Cons.IH [of g]
    by (auto split: if_splits)
qed

lemma droppedNodes_distinct: "distinct (map key (droppedNodes g ks))"
proof (induction ks arbitrary: g)
  case Nil
  show ?case by simp
next
  case (Cons k ks)
  have "k \<notin> key ` set (droppedNodes (dropNode g k) ks)"
    using droppedNodes_present [of _ "dropNode g k" ks]
    by auto
  then show ?case by (simp add: Cons.IH)
qed

section \<open>Merging the recorded nodes back\<close>

lemma mergeNode_absent:
  "nodeMap g k = None \<Longrightarrow> mergeNode g k a = g\<lparr>nodeMap := (nodeMap g)(k \<mapsto> a)\<rparr>"
  by (simp add: mergeNode_def getNodeAttributes_def object_assign_def)

lemma mergeNode_present_empty: "hasNode g k \<Longrightarrow> mergeNode g k Map.empty = g"
  by (auto simp: mergeNode_def getNodeAttributes_def object_assign_def hasNode_def fun_upd_idem)

lemma mergeNodes_each_absent:
  assumes "distinct (map key recs)" and "\<forall>n\<in>set recs. nodeMap g (key n) = None"
  shows "mergeNodes_each False recs (g, ex) =
           (g\<lparr>nodeMap := nodeMap g ++ map_of (map (\<lambda>n. (key n, attributes n)) recs)\<rparr>, ex)"
  using assms
proof (induction recs arbitrary: g)
  case Nil
  show ?case by simp
next
  case (Cons n recs)
  let ?g1 = "g\<lparr>nodeMap := (nodeMap g)(key n \<mapsto> attributes n)\<rparr>"
  have m: "mergeNode g (key n) (attributes n) = ?g1"
    using Cons.prems by (simp add: mergeNode_absent)
  have rest: "\<forall>m\<in>set recs. nodeMap ?g1 (key m) = None"
    using Cons.prems by (auto simp: image_iff)
  have notin: "key n \<notin> dom (map_of (map (\<lambda>n. (key n, attributes n)) recs))"
    using Cons.prems by (auto simp: dom_map_of_conv_image_fst image_image)
  have eq: "(nodeMap g)(key n \<mapsto> attributes n) ++ map_of (map (\<lambda>n. (key n, attributes n)) recs)
      = nodeMap g ++ map_of (map (\<lambda>n. (key n, attributes n)) (n # recs))"
    using notin by (auto simp: map_add_def fun_eq_iff split: option.splits)
  have "mergeNodes_each False (n # recs) (g, ex) = mergeNodes_each False recs (?g1, ex)"
    by (simp add: m)
  also have "\<dots> = (?g1\<lparr>nodeMap := nodeMap ?g1 ++ map_of (map (\<lambda>n. (key n, attributes n)) recs)\<rparr>, ex)"
    using Cons.prems(1) rest by (intro Cons.IH) simp_all
  also have "?g1\<lparr>nodeMap := nodeMap ?g1 ++ map_of (map (\<lambda>n. (key n, attributes n)) recs)\<rparr>
      = g\<lparr>nodeMap := nodeMap g ++ map_of (map (\<lambda>n. (key n, attributes n)) (n # recs))\<rparr>"
    using eq by (simp del: map_of.simps list.map)
  finally show ?case .
qed

lemma unhideEdges_untouched:
  "\<forall>n\<in>set recs. edgesOf g (key n) = [] \<Longrightarrow> unhideEdges recs g = g"
  by (induction recs arbitrary: g) simp_all

section \<open>Merging the recorded edges back\<close>

lemma mergeEdgeWithKey_fresh:
  assumes "getEdge g ek = None" and "hasNode g s" and "hasNode g t"
  shows "mergeEdgeWithKey g ek s t a =
           g\<lparr>edgeList := edgeList g @ [(ek, \<lparr>src = s, tgt = t, eattributes = a\<rparr>)]\<rparr>"
proof -
  have "mergeNode g s Map.empty = g" using assms(2) by (rule mergeNode_present_empty)
  moreover have "mergeNode g t Map.empty = g" using assms(3) by (rule mergeNode_present_empty)
  ultimately show ?thesis using assms(1) by (simp add: mergeEdgeWithKey_def Let_def)
qed

lemma mergeEdges_each_fresh:
  assumes "distinct (map edgeKey es)"
    and "\<forall>e\<in>set es. \<exists>ek. edgeKey e = Some ek \<and> key_truthy ek \<and> getEdge g ek = None
            \<and> hasNode g (source e) \<and> hasNode g (target e)"
  shows "mergeEdges_each False es (g, ex) = (g\<lparr>edgeList := edgeList g @ map toEntry es\<rparr>, ex)"
  using assms
proof (induction es arbitrary: g)
  case Nil
  show ?case by simp
next
  case (Cons e es)
  obtain ek where ek: "edgeKey e = Some ek" "key_truthy ek" "getEdge g ek = None"
      "hasNode g (source e)" "hasNode g (target e)"
    using Cons.prems(2) by auto
  let ?g1 = "g\<lparr>edgeList := edgeList g @ [toEntry e]\<rparr>"
  have m: "mergeEdgeWithKey g ek (source e) (target e) (edgeAttributes e) = ?g1"
    using ek by (simp add: mergeEdgeWithKey_fresh toEntry_def)
  have rest: "\<forall>e'\<in>set es. \<exists>ek'. edgeKey e' = Some ek' \<and> key_truthy ek' \<and> getEdge ?g1 ek' = None
            \<and> hasNode ?g1 (source e') \<and> hasNode ?g1 (target e')"
  proof
    fix e' assume e': "e' \<in> set es"
    then obtain ek' where k': "edgeKey e' = Some ek'" "key_truthy ek'" "getEdge g ek' = None"
        "hasNode g (source e')" "hasNode g (target e')"
      using Cons.prems(2) by auto
    have "ek' \<noteq> ek" using Cons.prems(1) e' ek(1) k'(1) by force
    then show "\<exists>ek'. edgeKey e' = Some ek' \<and> key_truthy ek' \<and> getEdge ?g1 ek' = None
            \<and> hasNode ?g1 (source e') \<and> hasNode ?g1 (target e')"
      using k' by (simp add: getEdge_def hasNode_def toEntry_def ek(1) map_add_def)
  qed
  show ?case
    using Cons.IH [of ?g1] Cons.prems(1) rest ek by (simp add: m Let_def)
qed

section \<open>The recorded edges are the removed edges\<close>

lemma toEntry_serializeEdge:
  assumes "distinct (map fst (edgeList g))" and "(ek, d) \<in> set (edgeList g)"
  shows "toEntry (serializeEdge g ek) = (ek, d)"
proof -
  have "map_of (edgeList g) ek = Some d" using assms by simp
  then show ?thesis
    by (simp add: toEntry_def serializeEdge_def edgeSource_def edgeTarget_def
        getEdgeAttributes_def getEdge_def)
qed

lemma recorded_edgesOf:
  assumes "distinct (map fst (edgeList g))"
  shows "map (toEntry \<circ> serializeEdge g) (edgesOf g k) =
           filter (\<lambda>(ek, e). src e = k \<or> tgt e = k) (edgeList g)"
proof -
  have "map (\<lambda>p. toEntry (serializeEdge g (fst p))) xs = xs" if "set xs \<subseteq> set (edgeList g)" for xs
    using that
  proof (induction xs)
    case Nil
    show ?case by simp
  next
    case (Cons p xs)
    obtain ek d where p: "p = (ek, d)" by (cases p)
    then have "toEntry (serializeEdge g ek) = (ek, d)"
      using Cons.prems assms by (intro toEntry_serializeEdge) auto
    then show ?case using Cons p by simp
  qed
  then show ?thesis by (simp add: edgesOf_def comp_def)
qed

lemma distinct_keys_insert_middle:
  assumes "distinct (map fst (A @ C))" and "distinct (map fst B)"
    and "fst ` set B \<inter> fst ` set (A @ C) = {}"
  shows "distinct (map fst (A @ B @ C))"
  using assms by auto

lemma distinct_keys_partition:
  assumes "distinct (map fst E)"
  shows "fst ` set (filter P E) \<inter> fst ` set (filter (\<lambda>p. \<not> P p) E) = {}"
proof -
  have "fst p \<noteq> fst q" if "p \<in> set E" "q \<in> set E" "P p" "\<not> P q" for p q
  proof
    assume "fst p = fst q"
    then have "p = q" using assms that(1,2) by (metis eq_key_imp_eq_value prod.collapse)
    then show False using that(3,4) by simp
  qed
  then show ?thesis by auto
qed

lemma removed_and_kept:
  assumes "distinct (map fst (edgeList g))"
  shows "set (edgeList (dropMany g ks) @ map toEntry (removedEdges g ks)) = set (edgeList g) \<and>
         distinct (map fst (edgeList (dropMany g ks) @ map toEntry (removedEdges g ks)))"
  using assms
proof (induction ks arbitrary: g)
  case Nil
  then show ?case by simp
next
  case (Cons k ks)
  show ?case
  proof (cases "hasNode g k")
    case False
    then show ?thesis using Cons.IH [of g] Cons.prems by simp
  next
    case True
    define inc where "inc = (\<lambda>p :: key \<times> edge_data. src (snd p) = k \<or> tgt (snd p) = k)"
    define E where "E = edgeList g"
    define kept where "kept = edgeList (dropMany (dropNode g k) ks)"
    define R1 where "R1 = map toEntry (removedEdges (dropNode g k) ks)"
    have E1: "edgeList (dropNode g k) = filter (\<lambda>p. \<not> inc p) E"
      by (auto simp: inc_def E_def intro!: filter_cong)
    have d1: "distinct (map fst (edgeList (dropNode g k)))"
      using Cons.prems by (simp add: distinct_map_filter)
    have ih: "set (kept @ R1) = set (filter (\<lambda>p. \<not> inc p) E)" "distinct (map fst (kept @ R1))"
      using Cons.IH [OF d1] unfolding kept_def R1_def E1 [symmetric] by blast+
    have rec: "map toEntry (removedEdges g (k # ks)) = filter inc E @ R1"
      using True Cons.prems
      by (auto simp: recorded_edgesOf R1_def inc_def E_def intro!: filter_cong)
    have left: "dropMany g (k # ks) = dropMany (dropNode g k) ks"
      using True by simp
    have disj: "fst ` set (filter inc E) \<inter> fst ` set (kept @ R1) = {}"
      using distinct_keys_partition [of E inc] Cons.prems unfolding ih(1) E_def by simp
    have dinc: "distinct (map fst (filter inc E))"
      using Cons.prems by (simp add: distinct_map_filter E_def)
    have "set (kept @ filter inc E @ R1) = set E"
      using ih(1) by auto
    moreover have "distinct (map fst (kept @ filter inc E @ R1))"
      using ih(2) dinc disj by (rule distinct_keys_insert_middle)
    ultimately show ?thesis
      unfolding left rec kept_def [symmetric] E_def [symmetric] by blast
  qed
qed

lemma removedEdges_entries:
  assumes "distinct (map fst (edgeList g))" and "e \<in> set (removedEdges g ks)"
  shows "\<exists>ek d. edgeKey e = Some ek \<and> toEntry e = (ek, d) \<and> (ek, d) \<in> set (edgeList g)
           \<and> source e = src d \<and> target e = tgt d"
  using assms
proof (induction ks arbitrary: g)
  case Nil
  then show ?case by simp
next
  case (Cons k ks)
  show ?case
  proof (cases "hasNode g k")
    case False
    then show ?thesis using Cons by simp
  next
    case True
    have d1: "distinct (map fst (edgeList (dropNode g k)))"
      using Cons.prems by (simp add: distinct_map_filter)
    consider (here) "e \<in> serializeEdge g ` set (edgesOf g k)"
      | (later) "e \<in> set (removedEdges (dropNode g k) ks)"
      using Cons.prems(2) True by auto
    then show ?thesis
    proof cases
      case here
      then obtain ek d where "e = serializeEdge g ek" "(ek, d) \<in> set (edgeList g)"
        by (auto simp: edgesOf_def)
      moreover from this have "toEntry e = (ek, d)"
        using Cons.prems(1) by (simp add: toEntry_serializeEdge)
      ultimately show ?thesis
        by (auto simp: serializeEdge_def toEntry_def)
    next
      case later
      then show ?thesis using Cons.IH [OF d1] by auto
    qed
  qed
qed

section \<open>The replay of a recorded drop\<close>

lemma restored_nodeMap:
  "nodeMap (dropMany g ks) ++ map_of (map (\<lambda>n. (key n, attributes n)) (droppedNodes g ks)) = nodeMap g"
  by (auto simp: fun_eq_iff map_add_def nodeMap_dropMany droppedNodes_lookup split: option.splits)

lemma mergeNodes_replay:
  assumes "graphData t = dropMany g ks"
  shows "graphData (snd (mergeNodes t (droppedNodes g ks) False)) = (dropMany g ks)\<lparr>nodeMap := nodeMap g\<rparr>"
proof (cases "droppedNodes g ks = []")
  case True
  then have "nodeMap (dropMany g ks) = nodeMap g"
    using restored_nodeMap [of g ks] by simp
  then show ?thesis using True assms by (simp add: mergeNodes_def)
next
  case False
  let ?recs = "droppedNodes g ks"
  let ?g1 = "(dropMany g ks)\<lparr>nodeMap := nodeMap g\<rparr>"
  have absent: "\<forall>n\<in>set ?recs. nodeMap (dropMany g ks) (key n) = None"
    using droppedNodes_present [of _ g ks] by (simp add: nodeMap_dropMany)
  have each: "mergeNodes_each False ?recs (dropMany g ks, []) = (?g1, [])"
    using mergeNodes_each_absent [OF droppedNodes_distinct absent, of "[]"]
    by (simp add: restored_nodeMap)
  have untouched: "\<forall>n\<in>set ?recs. edgesOf ?g1 (key n) = []"
  proof
    fix n assume "n \<in> set ?recs"
    then have "hasNode g (key n) \<and> key n \<in> set ks" by (rule droppedNodes_present)
    then show "edgesOf ?g1 (key n) = []"
      by (auto simp: edgesOf_def edgeList_dropMany filter_empty_conv)
  qed
  show ?thesis
    using False assms each unhideEdges_untouched [OF untouched]
    by (simp add: mergeNodes_def Let_def)
qed

lemma mergeNodes_frame:
  "renderer (snd (mergeNodes t ns a)) = renderer t"
  "isHistoryEnabled (snd (mergeNodes t ns a)) = isHistoryEnabled t"
  by (simp_all add: mergeNodes_def Let_def case_prod_beta history_addAction_def)

lemma mergeEdges_replay:
  assumes wf: "wf_graph g" and truthy: "\<forall>ek\<in>fst ` set (edgeList g). key_truthy ek"
    and t: "graphData t = (dropMany g ks)\<lparr>nodeMap := nodeMap g\<rparr>"
  shows "\<exists>b t'. mergeEdges t (EdgeSet (removedEdges g ks)) False = Inr (b, t') \<and>
           nodeMap (graphData t') = nodeMap g \<and>
           edgeList (graphData t') = edgeList (dropMany g ks) @ map toEntry (removedEdges g ks)"
proof (cases "removedEdges g ks = []")
  case True
  then show ?thesis using t by (auto simp: mergeEdges_def)
next
  case False
  let ?es = "removedEdges g ks"
  let ?g1 = "(dropMany g ks)\<lparr>nodeMap := nodeMap g\<rparr>"
  have d: "distinct (map fst (edgeList g))" using wf by (simp add: wf_graph_def)
  have rk: "distinct (map fst (edgeList (dropMany g ks) @ map toEntry ?es))"
    using removed_and_kept [OF d, of ks] by simp
  have "edgeKey e = Some (fst (toEntry e))" if "e \<in> set ?es" for e
    using removedEdges_entries [OF d that] by force
  then have keys: "map edgeKey ?es = map (\<lambda>e. Some (fst (toEntry e))) ?es"
    by simp
  have "distinct (map (\<lambda>e. fst (toEntry e)) ?es)" using rk by (simp add: comp_def)
  then have "distinct (map (\<lambda>e. Some (fst (toEntry e))) ?es)"
    by (auto simp: distinct_map inj_on_def)
  then have dk: "distinct (map edgeKey ?es)" by (simp only: keys)
  have fresh: "\<forall>e\<in>set ?es. \<exists>ek. edgeKey e = Some ek \<and> key_truthy ek \<and> getEdge ?g1 ek = None
            \<and> hasNode ?g1 (source e) \<and> hasNode ?g1 (target e)"
  proof
    fix e assume e: "e \<in> set ?es"
    then obtain ek dd where k: "edgeKey e = Some ek" "toEntry e = (ek, dd)" "(ek, dd) \<in> set (edgeList g)"
        "source e = src dd" "target e = tgt dd"
      using removedEdges_entries [OF d] by blast
    have "key_truthy ek" using truthy k(3) by force
    moreover have "ek \<notin> fst ` set (edgeList (dropMany g ks))"
      using rk e k(2) by force
    then have "getEdge ?g1 ek = None"
      by (simp add: getEdge_def map_of_eq_None_iff)
    moreover have "hasNode ?g1 (source e) \<and> hasNode ?g1 (target e)"
      using wf k(3,4,5) by (auto simp: wf_graph_def hasNode_def)
    ultimately show "\<exists>ek. edgeKey e = Some ek \<and> key_truthy ek \<and> getEdge ?g1 ek = None
            \<and> hasNode ?g1 (source e) \<and> hasNode ?g1 (target e)"
      using k(1) by simp
  qed
  have "mergeEdges_each False ?es (?g1, []) = (?g1\<lparr>edgeList := edgeList ?g1 @ map toEntry ?es\<rparr>, [])"
    using dk fresh by (rule mergeEdges_each_fresh)
  then show ?thesis
    using False t by (auto simp: mergeEdges_def Let_def)
qed

lemma getLatestAction_addAction:
  "getLatestAction (addAction old ty new h) =
     Some \<lparr>oldData = old, actionType = ty, newData = new, reverted = False\<rparr>"
  by (simp add: getLatestAction_def addAction_def)

text \<open>
  On a graph that keeps the invariant of the store and whose edge keys are all truthy, a
  recorded \<open>dropNodes\<close> of any array of keys followed by \<open>undo\<close> gives back every node
  with its attributes and every edge with its end points and attributes, the \<open>hidden\<close>
  flag among them.
\<close>

lemma dropNodes_undo_roundtrip:
  assumes act: "renderer s \<noteq> None" "appState s = ACTIVE" "isHistoryEnabled s"
    and h: "history s = Some h"
    and wf: "wf_graph (graphData s)"
    and truthy: "\<forall>ek\<in>fst ` set (edgeList (graphData s)). key_truthy ek"
  shows "\<exists>s'. undo (snd (dropNodes s (map KeyRef ks) True)) = Inr (True, s') \<and>
           nodeMap (graphData s') = nodeMap (graphData s) \<and>
           (\<forall>ek. getEdge (graphData s') ek = getEdge (graphData s) ek)"
proof -
  let ?g = "graphData s"
  define r where "r = dropNodes_each True (map KeyRef ks) (s, [], [])"
  have loop: "graphData (fst r) = dropMany ?g ks" "fst (snd r) = droppedNodes ?g ks"
      "snd (snd r) = removedEdges ?g ks" "renderer (fst r) = renderer s"
      "appState (fst r) = appState s" "isHistoryEnabled (fst r) = isHistoryEnabled s"
      "history (fst r) = history s"
    using dropNodes_each_keys [of ks s "[]" "[]"] by (simp_all add: r_def)
  define old where "old = noData\<lparr>d_nodes := Some (droppedNodes ?g ks),
                                    d_edges := Some (EdgeSet (removedEdges ?g ks))\<rparr>"
  define a where "a = \<lparr>oldData = old, actionType = DROP_NODE, newData = noData, reverted = False\<rparr>"
  define sd where "sd = history_addAction old DROP_NODE noData (fst r)"
  have dropped: "snd (dropNodes s (map KeyRef ks) True) = sd"
    using act(3) loop by (simp add: dropNodes_def Let_def case_prod_beta r_def [symmetric] sd_def old_def)
  have sd: "renderer sd \<noteq> None" "isRenderingActive sd" "isHistoryEnabled sd"
      "history sd = Some (addAction old DROP_NODE noData h)" "graphData sd = dropMany ?g ks"
    using act h loop by (simp_all add: sd_def history_addAction_def isRenderingActive_def)
  have latest: "(case history sd of None \<Rightarrow> None | Some h \<Rightarrow> getLatestAction h) = Some a"
    by (simp add: sd(4) getLatestAction_addAction a_def)
  define t where "t = snd (mergeNodes sd (droppedNodes ?g ks) False)"
  have t: "graphData t = (dropMany ?g ks)\<lparr>nodeMap := nodeMap ?g\<rparr>"
    unfolding t_def using sd(5) by (rule mergeNodes_replay)
  obtain b t' where t': "mergeEdges t (EdgeSet (removedEdges ?g ks)) False = Inr (b, t')"
      "nodeMap (graphData t') = nodeMap ?g"
      "edgeList (graphData t') = edgeList (dropMany ?g ks) @ map toEntry (removedEdges ?g ks)"
    using mergeEdges_replay [OF wf truthy t] by blast
  have switch: "undo_switch sd a = Inr (Some t')"
    using t'(1) by (simp add: undo_switch_def a_def old_def noData_def t_def Let_def)
  have undone: "undo sd = Inr (True, t'\<lparr>history := map_option markLatestActionAsReverted (history t')\<rparr>)"
    using sd(1,2,3) latest switch by (simp add: undo_def)
  have d: "distinct (map fst (edgeList ?g))" using wf by (simp add: wf_graph_def)
  have "map_of (edgeList (graphData t')) = map_of (edgeList ?g)"
    using removed_and_kept [OF d, of ks] d unfolding t'(3)
    by (metis map_of_inject_set)
  then have edges: "\<forall>ek. getEdge (graphData t') ek = getEdge ?g ek"
    by (simp add: getEdge_def)
  show ?thesis
    using undone t'(2) edges unfolding dropped by simp
qed

section \<open>The replay of a recorded merge of nodes\<close>

lemma mergeNodes_each_distinct:
  assumes "distinct (map key nodes)"
  shows "snd (mergeNodes_each True nodes (g, ex)) = ex @ snapshots g nodes \<and>
         edgeList (fst (mergeNodes_each True nodes (g, ex))) = edgeList g \<and>
         (\<forall>k. nodeMap (fst (mergeNodes_each True nodes (g, ex))) k =
               (if k \<in> key ` set nodes then
                  Some (object_assign (getNodeAttributes g k)
                          (the (map_of (map (\<lambda>n. (key n, attributes n)) nodes) k)))
                else nodeMap g k))"
  using assms
proof (induction nodes arbitrary: g ex)
  case Nil
  show ?case by (simp add: snapshots_def)
next
  case (Cons n nodes)
  let ?g1 = "mergeNode g (key n) (attributes n)"
  have same: "hasNode ?g1 k = hasNode g k \<and> getNodeAttributes ?g1 k = getNodeAttributes g k"
    if "k \<noteq> key n" for k
    using that by (simp add: mergeNode_def hasNode_def getNodeAttributes_def)
  have "\<forall>m\<in>set nodes. key m \<noteq> key n" using Cons.prems by (auto simp: image_iff)
  then have f: "filter (\<lambda>m. hasNode ?g1 (key m)) nodes = filter (\<lambda>m. hasNode g (key m)) nodes"
    using same by (intro filter_cong) auto
  have "snapshots ?g1 nodes = snapshots g nodes"
    unfolding snapshots_def f using \<open>\<forall>m\<in>set nodes. key m \<noteq> key n\<close> same
    by (intro map_cong) auto
  moreover have "nodeMap ?g1 k = (if k = key n then Some (object_assign (getNodeAttributes g k) (attributes n))
                                  else nodeMap g k)" for k
    by (simp add: mergeNode_def)
  moreover have "edgeList ?g1 = edgeList g" by (simp add: mergeNode_def)
  ultimately show ?case
    using Cons.IH [of ?g1] Cons.prems same
    by (auto simp: snapshots_def object_assign_def)
qed

lemma dropNodes_each_nodes:
  fixes s na ea nodes
  defines "r \<equiv> dropNodes_each False (map NodeRef nodes) (s, na, ea)"
  shows "graphData (fst r) = dropMany (graphData s) (map key nodes) \<and>
     renderer (fst r) = renderer s \<and> appState (fst r) = appState s \<and>
     isHistoryEnabled (fst r) = isHistoryEnabled s \<and> history (fst r) = history s"
  unfolding r_def
proof (induction nodes arbitrary: s na ea)
  case Nil
  show ?case by simp
next
  case (Cons n nodes)
  show ?case
  proof (cases "hasNode (graphData s) (key n)")
    case False
    then show ?thesis using Cons.IH [of s na ea] by simp
  next
    case True
    let ?g = "graphData s"
    let ?s4 = "(hideNodeInfoBoxContainer
                 (s\<lparr>highlightedNodes := highlightedNodes s - {key n},
                    highlightedEdges := highlightedEdges s - set (edgesOf ?g (key n))\<rparr>) False)
               \<lparr>graphData := dropNode ?g (key n)\<rparr>"
    have step: "dropNodes_each False (map NodeRef (n # nodes)) (s, na, ea) =
        dropNodes_each False (map NodeRef nodes) (?s4, na, ea)"
      using True by (simp add: Let_def)
    show ?thesis
      unfolding step using Cons.IH [of ?s4 na ea] True by simp
  qed
qed

lemma nodeMap_unhideEdges [simp]: "nodeMap (unhideEdges recs g) = nodeMap g"
proof (induction recs arbitrary: g)
  case Nil
  show ?case by simp
next
  case (Cons n recs)
  have "nodeMap (foldl (\<lambda>g' edge. setEdgeAttribute g' edge ''hidden'' (JBool False)) g es) = nodeMap g"
    for es
    by (induction es arbitrary: g) (simp_all add: setEdgeAttribute_def updateEdgeAttributes_def)
  then show ?case by (simp add: Cons.IH)
qed

text \<open>
  When the array is not empty and names no key twice, and the attributes of the nodes
  that exist already survive the JSON copy, a recorded \<open>mergeNodes\<close> followed by \<open>undo\<close>
  gives back the nodes of before, each with the attributes of before.
\<close>

lemma mergeNodes_undo_roundtrip:
  assumes act: "renderer s \<noteq> None" "appState s = ACTIVE" "isHistoryEnabled s"
    and h: "history s = Some h"
    and nonempty: "nodes \<noteq> []"
    and dist: "distinct (map key nodes)"
    and json: "\<forall>n\<in>set nodes. json_copy (getNodeAttributes (graphData s) (key n))
                 = getNodeAttributes (graphData s) (key n)"
  shows "\<exists>s'. undo (snd (mergeNodes s nodes True)) = Inr (True, s') \<and>
           nodeMap (graphData s') = nodeMap (graphData s)"
proof -
  let ?g = "graphData s"
  define gm where "gm = fst (mergeNodes_each True nodes (?g, []))"
  have each: "mergeNodes_each True nodes (?g, []) = (gm, snapshots ?g nodes)"
    using mergeNodes_each_distinct [OF dist, of ?g "[]"] by (simp add: gm_def prod_eq_iff)
  have gm: "nodeMap gm k = (if k \<in> key ` set nodes then
                  Some (object_assign (getNodeAttributes ?g k)
                          (the (map_of (map (\<lambda>n. (key n, attributes n)) nodes) k)))
                else nodeMap ?g k)" for k
    using mergeNodes_each_distinct [OF dist, of ?g "[]"] by (simp add: gm_def)
  define old where "old = noData\<lparr>d_nodes := Some (snapshots ?g nodes)\<rparr>"
  define new where "new = noData\<lparr>d_nodes := Some nodes\<rparr>"
  define a where "a = \<lparr>oldData = old, actionType = UPDATE_OR_ADD_NODE, newData = new, reverted = False\<rparr>"
  define sm where "sm = history_addAction old UPDATE_OR_ADD_NODE new (s\<lparr>graphData := gm\<rparr>)"
  have merged: "snd (mergeNodes s nodes True) = sm"
    using act(3) nonempty each by (simp add: mergeNodes_def Let_def sm_def old_def new_def)
  have sm: "renderer sm \<noteq> None" "isRenderingActive sm" "isHistoryEnabled sm"
      "history sm = Some (addAction old UPDATE_OR_ADD_NODE new h)" "graphData sm = gm"
    using act h by (simp_all add: sm_def history_addAction_def isRenderingActive_def)
  have latest: "(case history sm of None \<Rightarrow> None | Some h \<Rightarrow> getLatestAction h) = Some a"
    by (simp add: sm(4) getLatestAction_addAction a_def)
  define r where "r = dropNodes_each False (map NodeRef nodes) (sm, [], [])"
  define t where "t = snd (dropNodes sm (map NodeRef nodes) False)"
  have t_eq: "t = fst r"
    by (simp add: t_def dropNodes_def Let_def case_prod_beta r_def)
  have t: "graphData t = dropMany gm (map key nodes)"
    using dropNodes_each_nodes [of nodes sm "[]" "[]"] sm(5) by (simp add: t_eq r_def)
  define recs where "recs = json_copy_nodes (snapshots ?g nodes)"
  have recs_eq: "recs = snapshots ?g nodes"
    using json by (simp add: recs_def json_copy_nodes_def snapshots_def)
  define u where "u = snd (mergeNodes t recs False)"
  have switch: "undo_switch sm a = Inr (Some u)"
    by (simp add: undo_switch_def a_def old_def new_def noData_def Let_def u_def t_def recs_def)
  have undone: "undo sm = Inr (True, u\<lparr>history := map_option markLatestActionAsReverted (history u)\<rparr>)"
    using sm(1,2,3) latest switch by (simp add: undo_def)
  have dropped: "nodeMap (graphData t) k = (if k \<in> key ` set nodes then None else nodeMap ?g k)" for k
    by (simp add: t nodeMap_dropMany gm)
  have lookup: "map_of (map (\<lambda>n. (key n, attributes n)) recs) k =
      (if k \<in> key ` set nodes then nodeMap ?g k else None)" for k
  proof -
    have "map (\<lambda>n. (key n, attributes n)) recs =
        map (\<lambda>n. (key n, getNodeAttributes ?g (key n))) (filter (\<lambda>n. hasNode ?g (key n)) nodes)"
      by (simp add: recs_eq snapshots_def comp_def)
    then have m: "map_of (map (\<lambda>n. (key n, attributes n)) recs) =
        map_of (map (\<lambda>n. (key n, getNodeAttributes ?g (key n))) (filter (\<lambda>n. hasNode ?g (key n)) nodes))"
      by simp
    show ?thesis
    proof (cases "k \<in> key ` set nodes \<and> hasNode ?g k")
      case True
      then obtain n where n: "n \<in> set nodes" "key n = k" "hasNode ?g k" by auto
      then have "(k, getNodeAttributes ?g k) \<in>
          set (map (\<lambda>n. (key n, getNodeAttributes ?g (key n))) (filter (\<lambda>n. hasNode ?g (key n)) nodes))"
        by force
      moreover have "distinct (map fst (map (\<lambda>n. (key n, getNodeAttributes ?g (key n)))
          (filter (\<lambda>n. hasNode ?g (key n)) nodes)))"
        using dist by (simp add: comp_def distinct_map_filter)
      ultimately have "map_of (map (\<lambda>n. (key n, attributes n)) recs) k = Some (getNodeAttributes ?g k)"
        unfolding m by (rule map_of_is_SomeI [rotated])
      then show ?thesis using True by (auto simp: getNodeAttributes_def hasNode_def)
    next
      case False
      then have "k \<notin> fst ` set (map (\<lambda>n. (key n, getNodeAttributes ?g (key n)))
          (filter (\<lambda>n. hasNode ?g (key n)) nodes))"
        by force
      then have "map_of (map (\<lambda>n. (key n, attributes n)) recs) k = None"
        unfolding m by (simp add: map_of_eq_None_iff)
      then show ?thesis using False by (auto simp: hasNode_def)
    qed
  qed
  have restored: "nodeMap (graphData u) = nodeMap ?g"
  proof (cases "recs = []")
    case True
    then have "nodeMap (graphData u) = nodeMap (graphData t)"
      by (simp add: u_def mergeNodes_def)
    moreover have "nodeMap (graphData t) k = nodeMap ?g k" for k
      using lookup [of k] True by (simp add: dropped split: if_splits)
    ultimately show ?thesis by (simp add: fun_eq_iff)
  next
    case False
    have d: "distinct (map key recs)"
      using dist by (simp add: recs_eq snapshots_def comp_def distinct_map_filter)
    have absent: "\<forall>n\<in>set recs. nodeMap (graphData t) (key n) = None"
      by (auto simp: recs_eq snapshots_def dropped)
    have "mergeNodes_each False recs (graphData t, []) =
        ((graphData t)\<lparr>nodeMap := nodeMap (graphData t) ++ map_of (map (\<lambda>n. (key n, attributes n)) recs)\<rparr>, [])"
      using d absent by (rule mergeNodes_each_absent)
    then have "nodeMap (graphData u) = nodeMap (graphData t) ++ map_of (map (\<lambda>n. (key n, attributes n)) recs)"
      using False by (simp add: u_def mergeNodes_def Let_def)
    then show ?thesis
      by (auto simp: fun_eq_iff map_add_def dropped lookup split: option.splits)
  qed
  show ?thesis
    using undone restored unfolding merged by simp
qed

text \<open>The two round trips at concrete inputs: an edge with a truthy key and the
  \<open>hidden\<close> flag set comes back with its node, and a node that is merged once comes back
  with the attributes of before.\<close>

lemma dropNodes_undo_roundtrip_example:
  "wf_graph (graphData (rendered hiddenEdgeGraph historyConfig)) \<and>
   (\<exists>s'. undo (snd (dropNodes (rendered hiddenEdgeGraph historyConfig) [KeyRef ''n1''] True))
            = Inr (True, s') \<and>
         nodeMap (graphData s') = nodeMap hiddenEdgeGraph \<and>
         getEdgeAttribute (graphData s') ''e1'' ''hidden'' = JBool True)"
proof -
  let ?s = "rendered hiddenEdgeGraph historyConfig"
  have g: "graphData ?s = hiddenEdgeGraph" by (simp add: example_defs)
  have pre: "renderer ?s \<noteq> None" "appState ?s = ACTIVE" "isHistoryEnabled ?s" "history ?s = Some []"
    by (simp_all add: example_defs)
  have wf: "wf_graph (graphData ?s)"
    unfolding g by (simp add: wf_graph_def hiddenEdgeGraph_def hasNode_def)
  have truthy: "\<forall>ek\<in>fst ` set (edgeList (graphData ?s)). key_truthy ek"
    unfolding g by (simp add: hiddenEdgeGraph_def key_truthy_def)
  obtain s' where s': "undo (snd (dropNodes ?s (map KeyRef [''n1'']) True)) = Inr (True, s')"
      "nodeMap (graphData s') = nodeMap (graphData ?s)"
      "\<forall>ek. getEdge (graphData s') ek = getEdge (graphData ?s) ek"
    using dropNodes_undo_roundtrip [OF pre wf truthy] by blast
  have "getEdge (graphData s') ''e1'' = getEdge hiddenEdgeGraph ''e1''"
    using s'(3) unfolding g by simp
  then have "getEdgeAttribute (graphData s') ''e1'' ''hidden'' = JBool True"
    by (simp add: getEdgeAttribute_def getEdgeAttributes_def getEdge_def
        hiddenEdgeGraph_def attribute_def)
  then show ?thesis using s'(1,2) wf unfolding g by auto
qed

lemma mergeNodes_undo_roundtrip_example:
  "\<exists>s'. undo (snd (mergeNodes (rendered hiddenEdgeGraph historyConfig)
                      [\<lparr>key = ''n1'', attributes = [''x'' \<mapsto> JNum 1]\<rparr>] True)) = Inr (True, s') \<and>
        nodeMap (graphData s') = nodeMap hiddenEdgeGraph"
proof -
  let ?s = "rendered hiddenEdgeGraph historyConfig"
  have g: "graphData ?s = hiddenEdgeGraph" by (simp add: example_defs)
  have pre: "renderer ?s \<noteq> None" "appState ?s = ACTIVE" "isHistoryEnabled ?s" "history ?s = Some []"
    by (simp_all add: example_defs)
  have json: "\<forall>n\<in>set [\<lparr>key = ''n1'', attributes = [''x'' \<mapsto> JNum 1]\<rparr>].
      json_copy (getNodeAttributes (graphData ?s) (key n)) = getNodeAttributes (graphData ?s) (key n)"
    unfolding g by (auto simp: hiddenEdgeGraph_def getNodeAttributes_def json_copy_def fun_eq_iff)
  show ?thesis
    using mergeNodes_undo_roundtrip [OF pre _ _ json] unfolding g by simp
qed

section \<open>Where undo and redo fail\<close>

lemma find_after_unreverted:
  "find reverted (filter (\<lambda>a. \<not> reverted a) h @ [a]) = (if reverted a then Some a else None)"
  by (induction h) auto

lemma markLatest_last:
  "\<not> reverted a \<Longrightarrow> markLatestActionAsReverted (xs @ [a]) = xs @ [a\<lparr>reverted := True\<rparr>]"
  by (simp add: markLatestActionAsReverted_def)

text \<open>Whatever the history held, and whatever set of edges was merged, the undo of a
  recorded \<open>mergeEdges\<close> throws after it has cleared the edges of the graph.\<close>

lemma undo_after_mergeEdges_throws:
  assumes "renderer s \<noteq> None" and "appState s = ACTIVE" and "isHistoryEnabled s"
    and "history s = Some h" and "es \<noteq> []"
  shows "\<exists>s1. mergeEdges s (EdgeSet es) True = Inr (True, s1) \<and>
              undo s1 = Inl (TypeError, s1\<lparr>graphData := clearEdges (graphData s1)\<rparr>)"
proof -
  define r where "r = mergeEdges_each True es (graphData s, [])"
  define old where "old = noData\<lparr>d_edges := Some (EdgeSet (snd r))\<rparr>"
  define new where "new = noData\<lparr>d_edges := Some (EdgeSet es)\<rparr>"
  define a where "a = \<lparr>oldData = old, actionType = UPDATE_OR_ADD_EDGE, newData = new, reverted = False\<rparr>"
  define s1 where "s1 = history_addAction old UPDATE_OR_ADD_EDGE new (s\<lparr>graphData := fst r\<rparr>)"
  have merged: "mergeEdges s (EdgeSet es) True = Inr (True, s1)"
    using assms(3,5)
    by (simp add: mergeEdges_def Let_def case_prod_beta r_def [symmetric] s1_def old_def new_def)
  have s1: "renderer s1 \<noteq> None" "isRenderingActive s1" "isHistoryEnabled s1"
      "history s1 = Some (addAction old UPDATE_OR_ADD_EDGE new h)"
    using assms by (simp_all add: s1_def history_addAction_def isRenderingActive_def)
  have latest: "(case history s1 of None \<Rightarrow> None | Some h \<Rightarrow> getLatestAction h) = Some a"
    by (simp add: s1(4) getLatestAction_addAction a_def)
  have "undo_switch s1 a = Inl (TypeError, s1\<lparr>graphData := clearEdges (graphData s1)\<rparr>)"
    by (rule undo_switch_edge_throws) (simp_all add: a_def undo_payload_def old_def)
  then have "undo s1 = Inl (TypeError, s1\<lparr>graphData := clearEdges (graphData s1)\<rparr>)"
    using s1(1,2,3) latest by (simp add: undo_def)
  then show ?thesis using merged by blast
qed

text \<open>Whatever the history held, after a recorded \<open>toggleEdgeRendering()\<close> without
  argument the undo returns true and leaves the action reverted, and the redo returns
  false and leaves the state as it is.\<close>

lemma redo_after_toggle_without_argument:
  assumes "renderer s \<noteq> None" and "appState s = ACTIVE" and "isHistoryEnabled s"
    and "history s = Some h"
  shows "\<exists>s1 a. undo (toggleEdgeRendering s None True) = Inr (True, s1) \<and>
                (case history s1 of None \<Rightarrow> None | Some h1 \<Rightarrow> getLatestRevertedAction h1) = Some a \<and>
                redo s1 = Inr (False, s1)"
proof -
  define old where "old = noData\<lparr>d_toggleEdgeRendering := Some (isEdgeRenderingDisabled s)\<rparr>"
  define a where "a = \<lparr>oldData = old, actionType = TOGGLE_EDGE_RENDERING, newData = noData, reverted = False\<rparr>"
  define st where "st = toggleEdgeRendering s None True"
  have st: "renderer st \<noteq> None" "isRenderingActive st" "isHistoryEnabled st"
      "history st = Some (filter (\<lambda>a. \<not> reverted a) h @ [a])"
    using assms
    by (auto simp: st_def toggleEdgeRendering_def Let_def renderer_toggleEdgeRendering_def
        history_addAction_def addAction_def isRenderingActive_def a_def old_def noData_def)
  have latest: "(case history st of None \<Rightarrow> None | Some h \<Rightarrow> getLatestAction h) = Some a"
    by (simp add: st(4) getLatestAction_def a_def)
  define su where "su = toggleEdgeRendering st (Some (isEdgeRenderingDisabled s)) False"
  have switch: "undo_switch st a = Inr (Some su)"
    by (simp add: undo_switch_def a_def old_def su_def)
  have su: "renderer su \<noteq> None" "isRenderingActive su" "isHistoryEnabled su" "history su = history st"
    using st(1,2,3)
    by (auto simp: su_def toggleEdgeRendering_def Let_def renderer_toggleEdgeRendering_def
        isRenderingActive_def)
  define s1 where "s1 = su\<lparr>history := map_option markLatestActionAsReverted (history su)\<rparr>"
  have undone: "undo st = Inr (True, s1)"
    using st(1,2,3) latest switch by (simp add: undo_def s1_def)
  have h1: "history s1 = Some (filter (\<lambda>a. \<not> reverted a) h @ [a\<lparr>reverted := True\<rparr>])"
    by (simp add: s1_def su(4) st(4) markLatest_last a_def)
  have s1: "renderer s1 \<noteq> None" "isRenderingActive s1" "isHistoryEnabled s1"
    using su by (simp_all add: s1_def isRenderingActive_def)
  have rev: "(case history s1 of None \<Rightarrow> None | Some h1 \<Rightarrow> getLatestRevertedAction h1)
      = Some (a\<lparr>reverted := True\<rparr>)"
    by (simp add: h1 getLatestRevertedAction_def find_after_unreverted)
  have "redo_switch s1 (a\<lparr>reverted := True\<rparr>) = Inr None"
    by (simp add: redo_switch_def a_def noData_def)
  then have "redo s1 = Inr (False, s1)"
    using s1 rev by (simp add: redo_def)
  then show ?thesis using undone rev unfolding st_def by blast
qed

text \<open>
  C4: \<open>undo()\<close> and \<open>redo()\<close> do not return true whenever an action is eligible. After a
  recorded \<open>toggleEdgeRendering()\<close> without argument and its undo, the widget is ACTIVE
  with the history enabled and the one action is reverted, and \<open>redo()\<close> returns false:
  the argument, \<open>undefined\<close>, was recorded in place of the new value. After a recorded
  \<open>mergeEdges\<close>, the widget is ACTIVE with the history enabled and the one action is not
  reverted, and \<open>undo()\<close> throws a \<open>TypeError\<close>: the JSON copy of the set of old edges
  is a plain object.
\<close>

theorem undo_redo_eligible_action_fails:
  "appState toggleUndone = ACTIVE \<and> renderer toggleUndone \<noteq> None \<and> isHistoryEnabled toggleUndone \<and>
   map_option (map reverted) (history toggleUndone) = Some [True] \<and>
   result_value (redo toggleUndone) = Some False \<and>
   appState edgeMerged = ACTIVE \<and> renderer edgeMerged \<noteq> None \<and> isHistoryEnabled edgeMerged \<and>
   map_option (map reverted) (history edgeMerged) = Some [False] \<and>
   result_error (undo edgeMerged) = Some TypeError"
proof -
  have a: "appState toggleUndone = ACTIVE \<and> renderer toggleUndone \<noteq> None \<and> isHistoryEnabled toggleUndone \<and>
   map_option (map reverted) (history toggleUndone) = Some [True]"
    by (simp add: toggleUndone_def toggledWithoutArgument_def example_defs toggle_defs undo_defs)
  have b: "result_value (redo toggleUndone) = Some False"
    by (simp add: toggleUndone_def toggledWithoutArgument_def example_defs toggle_defs undo_defs)
  have c: "appState edgeMerged = ACTIVE \<and> renderer edgeMerged \<noteq> None \<and> isHistoryEnabled edgeMerged \<and>
     map_option (map reverted) (history edgeMerged) = Some [False]"
    by (simp add: edgeMerged_def mergeEdges_def example_defs toggle_defs undo_defs case_prod_beta)
  have d: "result_error (undo edgeMerged) = Some TypeError"
    by (simp add: edgeMerged_def mergeEdges_def replaceEdges_def example_defs toggle_defs undo_defs
        case_prod_beta)
  show ?thesis using a b c d by simp
qed

section \<open>Where the round trips fail\<close>

text \<open>
  C1: on a graph with an edge whose key is the empty string, a recorded \<open>dropNodes\<close> of
  an end point and \<open>undo\<close> bring the node back, but not the edge under its key: the empty
  string is falsy, so the replay merges the edge without a key and the store gives it a
  generated one. (For truthy keys the round trip is \<open>dropNodes_undo_roundtrip\<close>.)
\<close>

theorem dropNodes_undo_empty_edge_key:
  "hasNode (graphData (rendered emptyKeyGraph historyConfig)) ''a'' \<and>
   map fst (edgeList (graphData (rendered emptyKeyGraph historyConfig))) = [''''] \<and>
   map fst (edgeList (graphData emptyKeyDropped)) = [] \<and>
   result_value (undo emptyKeyDropped) = Some True \<and>
   hasNode (graphData (result_state (undo emptyKeyDropped))) ''a'' \<and>
   getEdge (graphData (result_state (undo emptyKeyDropped))) '''' = None \<and>
   map fst (edgeList (graphData (result_state (undo emptyKeyDropped)))) = [''_'']"
  by (simp add: emptyKeyDropped_def emptyKeyGraph_def example_defs toggle_defs undo_defs graph_defs
      node_defs)

text \<open>
  C2: when the array names a key twice, a recorded \<open>mergeNodes\<close> and \<open>undo\<close> do not give
  back the nodes of before. A node that was absent is there after the undo, with the
  attributes of its first entry; a node that was there keeps the attributes of the first
  entry next to its own. (For keys named once the round trip is
  \<open>mergeNodes_undo_roundtrip\<close>.)
\<close>

theorem mergeNodes_undo_duplicate_key:
  "\<not> hasNode (graphData (rendered emptyGraph historyConfig)) ''a'' \<and>
   result_value (undo duplicateMergedNew) = Some True \<and>
   hasNode (graphData (result_state (undo duplicateMergedNew))) ''a'' \<and>
   getNodeAttribute (graphData (result_state (undo duplicateMergedNew))) ''a'' ''x'' = JNum 1 \<and>
   getNodeAttribute (graphData (rendered singleNodeGraph historyConfig)) ''a'' ''x'' = JUndefined \<and>
   result_value (undo duplicateMergedExisting) = Some True \<and>
   getNodeAttribute (graphData (result_state (undo duplicateMergedExisting))) ''a'' ''x'' = JNum 1"
  by (simp add: duplicateMergedNew_def duplicateMergedExisting_def duplicateKeyNodes_def
      singleNodeGraph_def example_defs toggle_defs undo_defs graph_defs node_defs)

end
